theory Spec2Isabelle
  imports Complex_Main "HOL-Library.Sublist"
begin

section \<open>Strings and thrown values\<close>

text \<open>
  The sections below embed functions of several source files. Records of different
  sections share field names, as the interfaces of the source do; a field of an earlier
  record is then written with the record's name in front, as in \<open>FileDiff.path\<close>.
\<close>

text \<open>
  JavaScript strings are modelled as \<open>string\<close>, one \<open>char\<close> per code unit; the
  functions below only compare code units with each other and with fixed characters, and
  count them.
\<close>

definition CR :: char where "CR = CHR 0x0D"
definition LF :: char where "LF = CHR 0x0A"
definition NUL :: char where "NUL = CHR 0x00"

text \<open>
  A thrown JavaScript value is an \<open>Error\<close> object; only its message is read anywhere.
  A computation that may throw returns \<open>error + 'a\<close>, with \<open>Inl\<close> for the throw.
\<close>

datatype error = Error (message: string)

text \<open>
  An optional string is falsy, and counts as missing for \<open>!a\<close> and \<open>||\<close>, when it is
  absent (\<open>undefined\<close> or \<open>null\<close>, here \<open>None\<close>) or empty.
  \<open>a || b\<close> on optional strings is \<open>a\<close> when it is a non-empty string, else \<open>b\<close>;
  \<open>a || "literal"\<close> likewise with a string as second operand.
\<close>

definition missing :: "string option \<Rightarrow> bool" where
  "missing a \<longleftrightarrow> a = None \<or> a = Some []"

definition orElse :: "string option \<Rightarrow> string option \<Rightarrow> string option" where
  "orElse a b = (case a of Some s \<Rightarrow> if s \<noteq> [] then Some s else b | None \<Rightarrow> b)"

definition orDefault :: "string option \<Rightarrow> string \<Rightarrow> string" where
  "orDefault a b = (case a of Some s \<Rightarrow> if s \<noteq> [] then s else b | None \<Rightarrow> b)"


section \<open>Pull-request details for the review page (\<open>getPRReviewDetails\<close>)\<close>

text \<open>
  The answer of Azure DevOps is untyped in the source. Fields that are copied without a
  look at them hold a value of an arbitrary type \<open>'v\<close> (any JSON value, or
  \<open>undefined\<close>); fields that get a default with \<open>||\<close> are optional strings; objects
  whose properties are read are optional records.
\<close>

record 'v Person =
  displayName :: 'v
  uniqueName :: 'v

record 'v ReviewerData =
  reviewer :: "'v Person option"
  vote :: 'v
  isRequired :: 'v

record 'v CommentData =
  id :: 'v
  author :: "'v Person option"
  content :: 'v
  threadContext :: 'v
  publishedDate :: 'v
  lastUpdatedDate :: 'v
  isDeleted :: 'v

record 'v ThreadData =
  id :: 'v
  status :: 'v
  comments :: "'v CommentData list option"
  threadContext :: 'v
  publishedDate :: 'v
  lastUpdatedDate :: 'v

record CreatedByData =
  displayName :: "string option"
  uniqueName :: "string option"
  email :: "string option"

record ProjectData =
  name :: "string option"
  url :: "string option"

record RepositoryData =
  name :: "string option"
  url :: "string option"
  project :: "ProjectData option"

record 'v PRData =
  pullRequestId :: 'v
  title :: 'v
  description :: "string option"
  createdBy :: "CreatedByData option"
  creationDate :: 'v
  sourceRefName :: 'v
  targetRefName :: 'v
  status :: 'v
  mergeStatus :: "string option"
  reviewers :: "'v ReviewerData list option"
  threads :: "'v ThreadData list option"
  url :: 'v
  repository :: "RepositoryData option"

text \<open>The result, \<open>PRReviewDetails\<close> of \<open>types.ts\<close>, with the same convention.\<close>

record 'v PRReviewer =
  reviewer :: "'v Person"
  vote :: 'v
  isRequired :: 'v

record 'v PRReviewComment =
  id :: 'v
  author :: "'v Person"
  content :: 'v
  threadContext :: 'v
  publishedDate :: 'v
  lastUpdatedDate :: 'v
  isDeleted :: 'v

record 'v PRReviewThread =
  id :: 'v
  status :: 'v
  comments :: "'v PRReviewComment list"
  threadContext :: 'v
  publishedDate :: 'v
  lastUpdatedDate :: 'v

record Creator =
  displayName :: string
  uniqueName :: string

record NamedUrl =
  name :: string
  url :: string

record 'v PRReviewDetails =
  pullRequestId :: 'v
  title :: 'v
  description :: string
  createdBy :: Creator
  creationDate :: 'v
  sourceRefName :: 'v
  targetRefName :: 'v
  status :: 'v
  mergeStatus :: string
  reviewers :: "'v PRReviewer list"
  threads :: "'v PRReviewThread list"
  url :: 'v
  repository :: NamedUrl
  project :: NamedUrl

record PRReviewParams =
  organization :: string
  project :: string
  repository :: string
  pullRequestId :: int

text \<open>
  Reading \<open>displayName\<close> of a \<open>reviewer\<close> or an \<open>author\<close> that is missing throws a
  TypeError; its message is the engine's.
\<close>

definition typeError :: error where
  "typeError = Error ''Cannot read properties of undefined (reading displayName)''"

text \<open>\<open>xs.map(f)\<close> for a callback that may throw: the first throw ends the loop.\<close>

fun mapThrowing :: "('a \<Rightarrow> error + 'b) \<Rightarrow> 'a list \<Rightarrow> error + 'b list" where
  "mapThrowing f [] = Inr []"
| "mapThrowing f (x # xs) =
     (case f x of
        Inl e \<Rightarrow> Inl e
      | Inr y \<Rightarrow> (case mapThrowing f xs of Inl e \<Rightarrow> Inl e | Inr ys \<Rightarrow> Inr (y # ys)))"

text \<open>\<open>xs?.map(f) || []\<close>: the empty array when \<open>xs\<close> is absent.\<close>

definition mapIfPresent :: "('a \<Rightarrow> error + 'b) \<Rightarrow> 'a list option \<Rightarrow> error + 'b list" where
  "mapIfPresent f xs = (case xs of None \<Rightarrow> Inr [] | Some ys \<Rightarrow> mapThrowing f ys)"

definition toReviewer :: "'v ReviewerData \<Rightarrow> error + 'v PRReviewer" where
  "toReviewer r =
     (case ReviewerData.reviewer r of
        None \<Rightarrow> Inl typeError
      | Some person \<Rightarrow>
          Inr \<lparr>PRReviewer.reviewer = \<lparr>Person.displayName = Person.displayName person,
                             Person.uniqueName = Person.uniqueName person\<rparr>,
               PRReviewer.vote = ReviewerData.vote r, PRReviewer.isRequired = ReviewerData.isRequired r\<rparr>)"

definition toComment :: "'v CommentData \<Rightarrow> error + 'v PRReviewComment" where
  "toComment c =
     (case CommentData.author c of
        None \<Rightarrow> Inl typeError
      | Some person \<Rightarrow>
          Inr \<lparr>PRReviewComment.id = CommentData.id c,
               PRReviewComment.author = \<lparr>Person.displayName = Person.displayName person,
                          Person.uniqueName = Person.uniqueName person\<rparr>,
               PRReviewComment.content = CommentData.content c,
               PRReviewComment.threadContext = CommentData.threadContext c,
               PRReviewComment.publishedDate = CommentData.publishedDate c,
               PRReviewComment.lastUpdatedDate = CommentData.lastUpdatedDate c,
               PRReviewComment.isDeleted = CommentData.isDeleted c\<rparr>)"

definition toThread :: "'v ThreadData \<Rightarrow> error + 'v PRReviewThread" where
  "toThread t =
     (case mapIfPresent toComment (ThreadData.comments t) of
        Inl e \<Rightarrow> Inl e
      | Inr mapped \<Rightarrow>
          Inr \<lparr>PRReviewThread.id = ThreadData.id t, PRReviewThread.status = ThreadData.status t, PRReviewThread.comments = mapped,
               PRReviewThread.threadContext = ThreadData.threadContext t,
               PRReviewThread.publishedDate = ThreadData.publishedDate t,
               PRReviewThread.lastUpdatedDate = ThreadData.lastUpdatedDate t\<rparr>)"

text \<open>
  \<open>getPRReviewDetails\<close>. \<open>fetchWithAuth\<close> is the request for the pull request named by
  \<open>params\<close>; it throws or returns the answer. Nothing is caught.
\<close>

definition getPRReviewDetails ::
  "(PRReviewParams \<Rightarrow> string \<Rightarrow> error + 'v PRData) \<Rightarrow> PRReviewParams \<Rightarrow> string \<Rightarrow>
   error + 'v PRReviewDetails" where
  "getPRReviewDetails fetchWithAuth params pat =
     (case fetchWithAuth params pat of
        Inl e \<Rightarrow> Inl e
      | Inr data \<Rightarrow>
          (case mapIfPresent toReviewer (PRData.reviewers data) of
             Inl e \<Rightarrow> Inl e
           | Inr mappedReviewers \<Rightarrow>
               (case mapIfPresent toThread (PRData.threads data) of
                  Inl e \<Rightarrow> Inl e
                | Inr mappedThreads \<Rightarrow>
                    Inr \<lparr>PRReviewDetails.pullRequestId = PRData.pullRequestId data,
                         PRReviewDetails.title = PRData.title data,
                         PRReviewDetails.description = orDefault (PRData.description data) [],
                         PRReviewDetails.createdBy =
                           \<lparr>Creator.displayName =
                              orDefault (Option.bind (PRData.createdBy data) CreatedByData.displayName)
                                ''Unknown'',
                            Creator.uniqueName =
                              orDefault
                                (orElse (Option.bind (PRData.createdBy data) CreatedByData.uniqueName)
                                        (Option.bind (PRData.createdBy data) CreatedByData.email))
                                ''unknown@example.com''\<rparr>,
                         PRReviewDetails.creationDate = PRData.creationDate data,
                         PRReviewDetails.sourceRefName = PRData.sourceRefName data,
                         PRReviewDetails.targetRefName = PRData.targetRefName data,
                         PRReviewDetails.status = PRData.status data,
                         PRReviewDetails.mergeStatus = orDefault (PRData.mergeStatus data) ''unknown'',
                         PRReviewDetails.reviewers = mappedReviewers,
                         PRReviewDetails.threads = mappedThreads,
                         PRReviewDetails.url = PRData.url data,
                         PRReviewDetails.repository =
                           \<lparr>NamedUrl.name = orDefault (Option.bind (PRData.repository data) RepositoryData.name)
                                    (PRReviewParams.repository params),
                            NamedUrl.url = orDefault (Option.bind (PRData.repository data) RepositoryData.url) []\<rparr>,
                         PRReviewDetails.project =
                           \<lparr>NamedUrl.name = orDefault
                                    (Option.bind (Option.bind (PRData.repository data) RepositoryData.project)
                                       ProjectData.name)
                                    (PRReviewParams.project params),
                            NamedUrl.url = orDefault
                                    (Option.bind (Option.bind (PRData.repository data) RepositoryData.project)
                                       ProjectData.url) []\<rparr>\<rparr>)))"

subsection \<open>Notions used to state the properties of the details\<close>

text \<open>A returned reviewer, comment or thread carries the fields of the entry it comes from.\<close>

definition sameReviewer :: "'v ReviewerData \<Rightarrow> 'v PRReviewer \<Rightarrow> bool" where
  "sameReviewer r r' \<longleftrightarrow>
     ReviewerData.reviewer r = Some (PRReviewer.reviewer r') \<and>
     ReviewerData.vote r = PRReviewer.vote r' \<and>
     ReviewerData.isRequired r = PRReviewer.isRequired r'"

definition sameComment :: "'v CommentData \<Rightarrow> 'v PRReviewComment \<Rightarrow> bool" where
  "sameComment c c' \<longleftrightarrow>
     CommentData.author c = Some (PRReviewComment.author c') \<and>
     CommentData.id c = PRReviewComment.id c' \<and>
     CommentData.content c = PRReviewComment.content c' \<and>
     CommentData.threadContext c = PRReviewComment.threadContext c' \<and>
     CommentData.publishedDate c = PRReviewComment.publishedDate c' \<and>
     CommentData.lastUpdatedDate c = PRReviewComment.lastUpdatedDate c' \<and>
     CommentData.isDeleted c = PRReviewComment.isDeleted c'"

definition orEmpty :: "'a list option \<Rightarrow> 'a list" where
  "orEmpty xs = (case xs of None \<Rightarrow> [] | Some ys \<Rightarrow> ys)"

definition sameThread :: "'v ThreadData \<Rightarrow> 'v PRReviewThread \<Rightarrow> bool" where
  "sameThread t t' \<longleftrightarrow>
     ThreadData.id t = PRReviewThread.id t' \<and>
     ThreadData.status t = PRReviewThread.status t' \<and>
     ThreadData.threadContext t = PRReviewThread.threadContext t' \<and>
     ThreadData.publishedDate t = PRReviewThread.publishedDate t' \<and>
     ThreadData.lastUpdatedDate t = PRReviewThread.lastUpdatedDate t' \<and>
     list_all2 sameComment (orEmpty (ThreadData.comments t)) (PRReviewThread.comments t')"

text \<open>Every reviewer entry names its reviewer and every comment its author.\<close>

definition allNamed :: "'v PRData \<Rightarrow> bool" where
  "allNamed d \<longleftrightarrow>
     list_all (\<lambda>r. ReviewerData.reviewer r \<noteq> None) (orEmpty (PRData.reviewers d)) \<and>
     list_all (\<lambda>t. list_all (\<lambda>c. CommentData.author c \<noteq> None) (orEmpty (ThreadData.comments t)))
       (orEmpty (PRData.threads d))"

text \<open>
  Sample data for the witnesses, with JSON values written as strings: an answer whose
  author has an e-mail address but no unique name, one reviewer, and one thread with one
  comment.
\<close>

definition sampleReviewParams :: PRReviewParams where
  "sampleReviewParams =
     \<lparr>PRReviewParams.organization = ''org'', PRReviewParams.project = ''proj'',
      PRReviewParams.repository = ''repo'', PRReviewParams.pullRequestId = 42\<rparr>"

definition ann :: "string Person" where
  "ann = \<lparr>Person.displayName = ''Ann'', Person.uniqueName = ''ann@corp.example''\<rparr>"

definition sampleData :: "string PRData" where
  "sampleData =
     \<lparr>PRData.pullRequestId = ''42'', PRData.title = ''Fix login'',
      PRData.description = None,
      PRData.createdBy =
        Some \<lparr>CreatedByData.displayName = Some ''Ann'', CreatedByData.uniqueName = None,
              CreatedByData.email = Some ''ann@corp.example''\<rparr>,
      PRData.creationDate = ''2024-01-01'', PRData.sourceRefName = ''refs/heads/fix'',
      PRData.targetRefName = ''refs/heads/main'', PRData.status = ''active'',
      PRData.mergeStatus = Some [],
      PRData.reviewers =
        Some [\<lparr>ReviewerData.reviewer = Some ann, ReviewerData.vote = ''10'',
               ReviewerData.isRequired = ''true''\<rparr>],
      PRData.threads =
        Some [\<lparr>ThreadData.id = ''1'', ThreadData.status = ''active'',
               ThreadData.comments =
                 Some [\<lparr>CommentData.id = ''1'', CommentData.author = Some ann,
                        CommentData.content = ''ok'', CommentData.threadContext = ''null'',
                        CommentData.publishedDate = ''2024-01-02'',
                        CommentData.lastUpdatedDate = ''2024-01-02'',
                        CommentData.isDeleted = ''false''\<rparr>],
               ThreadData.threadContext = ''null'', ThreadData.publishedDate = ''2024-01-02'',
               ThreadData.lastUpdatedDate = ''2024-01-02''\<rparr>],
      PRData.url = ''https://dev.azure.com/org/_apis/git/pullRequests/42'',
      PRData.repository = None\<rparr>"

definition sampleFetch :: "PRReviewParams \<Rightarrow> string \<Rightarrow> error + string PRData" where
  "sampleFetch ps token = Inr sampleData"

definition sampleDetails :: "string PRReviewDetails" where
  "sampleDetails =
     \<lparr>PRReviewDetails.pullRequestId = ''42'', PRReviewDetails.title = ''Fix login'',
      PRReviewDetails.description = [],
      PRReviewDetails.createdBy =
        \<lparr>Creator.displayName = ''Ann'', Creator.uniqueName = ''ann@corp.example''\<rparr>,
      PRReviewDetails.creationDate = ''2024-01-01'',
      PRReviewDetails.sourceRefName = ''refs/heads/fix'',
      PRReviewDetails.targetRefName = ''refs/heads/main'', PRReviewDetails.status = ''active'',
      PRReviewDetails.mergeStatus = ''unknown'',
      PRReviewDetails.reviewers =
        [\<lparr>PRReviewer.reviewer = ann, PRReviewer.vote = ''10'', PRReviewer.isRequired = ''true''\<rparr>],
      PRReviewDetails.threads =
        [\<lparr>PRReviewThread.id = ''1'', PRReviewThread.status = ''active'',
          PRReviewThread.comments =
            [\<lparr>PRReviewComment.id = ''1'', PRReviewComment.author = ann,
              PRReviewComment.content = ''ok'', PRReviewComment.threadContext = ''null'',
              PRReviewComment.publishedDate = ''2024-01-02'',
              PRReviewComment.lastUpdatedDate = ''2024-01-02'',
              PRReviewComment.isDeleted = ''false''\<rparr>],
          PRReviewThread.threadContext = ''null'', PRReviewThread.publishedDate = ''2024-01-02'',
          PRReviewThread.lastUpdatedDate = ''2024-01-02''\<rparr>],
      PRReviewDetails.url = ''https://dev.azure.com/org/_apis/git/pullRequests/42'',
      PRReviewDetails.repository = \<lparr>NamedUrl.name = ''repo'', NamedUrl.url = []\<rparr>,
      PRReviewDetails.project = \<lparr>NamedUrl.name = ''proj'', NamedUrl.url = []\<rparr>\<rparr>"

definition namelessData :: "string PRData" where
  "namelessData =
     sampleData\<lparr>PRData.reviewers :=
       Some [\<lparr>ReviewerData.reviewer = None, ReviewerData.vote = ''0'',
              ReviewerData.isRequired = ''false''\<rparr>]\<rparr>"

definition namelessFetch :: "PRReviewParams \<Rightarrow> string \<Rightarrow> error + string PRData" where
  "namelessFetch ps token = Inr namelessData"


section \<open>Parsing a pull-request URL\<close>

text \<open>
  \<open>new URL(url)\<close> is the platform's parser and is taken as a parameter: it throws or
  yields an object of which \<open>hostname\<close> and \<open>pathname\<close> are read.
\<close>

record URL =
  hostname :: string
  pathname :: string

text \<open>
  The fields of the result are declared as strings; the \<open>visualstudio.com\<close> branch reads
  path parts without checking the length, so a field can hold \<open>undefined\<close>, here
  \<open>None\<close>.
\<close>

record AzureDevOpsParams =
  organization :: "string option"
  project :: "string option"
  repository :: "string option"
  pullRequestId :: "string option"

text \<open>\<open>s.split(c)\<close> for a one-character separator: the empty string gives one empty part.\<close>

fun onFirstPart :: "char \<Rightarrow> string list \<Rightarrow> string list" where
  "onFirstPart c [] = [[c]]"
| "onFirstPart c (p # ps) = (c # p) # ps"

fun splitOn :: "char \<Rightarrow> string \<Rightarrow> string list" where
  "splitOn sep [] = [[]]"
| "splitOn sep (c # cs) =
     (if c = sep then [] # splitOn sep cs else onFirstPart c (splitOn sep cs))"

text \<open>\<open>parts[i]\<close>: \<open>undefined\<close> beyond the end of the array.\<close>

definition partAt :: "'a list \<Rightarrow> nat \<Rightarrow> 'a option" where
  "partAt parts i = (if i < length parts then Some (parts ! i) else None)"

text \<open>
  The body of the \<open>try\<close> block of \<open>parsePRUrl\<close> in the Azure DevOps service, and the
  function with its \<open>catch\<close>, which returns \<open>null\<close>.
\<close>

definition parsePRUrl_try :: "(string \<Rightarrow> error + URL) \<Rightarrow> string \<Rightarrow> error + AzureDevOpsParams option" where
  "parsePRUrl_try newURL urlString =
     (case newURL urlString of
        Inl e \<Rightarrow> Inl e
      | Inr prUrl \<Rightarrow>
          (let pathParts = filter (\<lambda>p. p \<noteq> []) (splitOn (CHR ''/'') (pathname prUrl)) in
           if length pathParts \<ge> 6 \<and> partAt pathParts 2 = Some ''_git'' \<and>
              partAt pathParts 4 = Some ''pullrequest''
           then Inr (Some \<lparr>organization = partAt pathParts 0, project = partAt pathParts 1,
                            repository = partAt pathParts 3, pullRequestId = partAt pathParts 5\<rparr>)
           else
             (let hostParts = splitOn (CHR ''.'') (hostname prUrl) in
              if partAt hostParts 1 = Some ''visualstudio'' \<and> partAt pathParts 1 = Some ''_git''
              then Inr (Some \<lparr>organization = partAt hostParts 0, project = partAt pathParts 0,
                               repository = partAt pathParts 2, pullRequestId = partAt pathParts 4\<rparr>)
              else Inr None)))"

definition parsePRUrl :: "(string \<Rightarrow> error + URL) \<Rightarrow> string \<Rightarrow> error + AzureDevOpsParams option" where
  "parsePRUrl newURL urlString =
     (case parsePRUrl_try newURL urlString of Inl e \<Rightarrow> Inr None | Inr result \<Rightarrow> Inr result)"

text \<open>The function of the same name in the pull-request creation service.\<close>

definition prCreation_parsePRUrl_try :: "(string \<Rightarrow> error + URL) \<Rightarrow> string \<Rightarrow> error + AzureDevOpsParams option" where
  "prCreation_parsePRUrl_try newURL urlString =
     (case newURL urlString of
        Inl e \<Rightarrow> Inl e
      | Inr prUrl \<Rightarrow>
          (let pathParts = filter (\<lambda>p. p \<noteq> []) (splitOn (CHR ''/'') (pathname prUrl)) in
           if length pathParts \<ge> 6 \<and> partAt pathParts 2 = Some ''_git'' \<and>
              partAt pathParts 4 = Some ''pullrequest''
           then Inr (Some \<lparr>organization = partAt pathParts 0, project = partAt pathParts 1,
                            repository = partAt pathParts 3, pullRequestId = partAt pathParts 5\<rparr>)
           else
             (let hostParts = splitOn (CHR ''.'') (hostname prUrl) in
              if partAt hostParts 1 = Some ''visualstudio'' \<and> partAt pathParts 1 = Some ''_git''
              then Inr (Some \<lparr>organization = partAt hostParts 0, project = partAt pathParts 0,
                               repository = partAt pathParts 2, pullRequestId = partAt pathParts 4\<rparr>)
              else Inr None)))"

definition prCreation_parsePRUrl :: "(string \<Rightarrow> error + URL) \<Rightarrow> string \<Rightarrow> error + AzureDevOpsParams option" where
  "prCreation_parsePRUrl newURL urlString =
     (case prCreation_parsePRUrl_try newURL urlString of Inl e \<Rightarrow> Inr None | Inr result \<Rightarrow> Inr result)"

text \<open>A parser for the witnesses: it knows two addresses and rejects every other string.\<close>

definition sampleURL :: "string \<Rightarrow> error + URL" where
  "sampleURL urlString =
     (if urlString = ''https://dev.azure.com/org/proj/_git/repo/pullrequest/42''
      then Inr \<lparr>hostname = ''dev.azure.com'', pathname = ''/org/proj/_git/repo/pullrequest/42''\<rparr>
      else if urlString = ''https://example.com/about''
      then Inr \<lparr>hostname = ''example.com'', pathname = ''/about''\<rparr>
      else Inl (Error ''Invalid URL''))"


section \<open>Fetching the contents of a batch of changes (Azure DevOps service)\<close>

text \<open>
  A change entry of the Azure DevOps answer is untyped in the source. The fields read from
  it are kept, each possibly absent; \<open>item\<close> is an object with an optional \<open>path\<close>, or
  a string.
\<close>

datatype Item = ItemObject "string option" | ItemString string

record Change =
  item :: "Item option"
  path :: "string option"
  changeType :: "string option"
  sourceServerItem :: "string option"
  originalPath :: "string option"

record FileDiff =
  path :: string
  changeType :: string
  content :: "string option"
  originalPath :: "string option"

text \<open>
  \<open>change.item?.path || change.path ||
  (change.item && typeof change.item === "string" ? change.item : null)\<close>
\<close>

definition changePath :: "Change \<Rightarrow> string option" where
  "changePath change =
     orElse
       (orElse (case item change of Some (ItemObject p) \<Rightarrow> p | _ \<Rightarrow> None) (Change.path change))
       (case item change of
          Some (ItemString s) \<Rightarrow> if s \<noteq> [] then Some s else None
        | _ \<Rightarrow> None)"

text \<open>
  What the request for one file can do inside the \<open>try\<close> block: building the address or
  \<open>fetch\<close> throws, the answer is not \<open>ok\<close>, reading the body throws, or the body
  arrives. The exchange is a parameter, keyed by what the address is built from.
\<close>

datatype HttpOutcome = Rejected | NotOk | BodyRejected | Body string

text \<open>The string literals of \<open>fetchBatchContents\<close>.\<close>

definition skipTypes :: "string list" where
  "skipTypes = [''delete'', ''none'']"

definition binaryMarker :: string where
  "binaryMarker = ''[Binary File - Skipping analysis]''"

definition errorMarker :: string where
  "errorMarker = ''[Error fetching content]''"

definition truncatedSuffix :: string where
  "truncatedSuffix = LF # ''... [TRUNCATED]''"

definition fetchChange ::
  "(string \<Rightarrow> string) \<Rightarrow> (AzureDevOpsParams \<Rightarrow> string \<Rightarrow> string \<Rightarrow> string option \<Rightarrow> HttpOutcome) \<Rightarrow>
   AzureDevOpsParams \<Rightarrow> string \<Rightarrow> string option \<Rightarrow> Change \<Rightarrow> FileDiff option" where
  "fetchChange toLowerCase getItem params pat commitId change =
     (case changePath change of
        None \<Rightarrow> None
      | Some filePath \<Rightarrow>
          if filePath = [] then None
          else
            (let changeType = orDefault (Change.changeType change) ''edit'';
                 content =
                   (if toLowerCase changeType \<notin> set skipTypes then
                      (case getItem params pat filePath commitId of
                         Rejected \<Rightarrow> errorMarker
                       | NotOk \<Rightarrow> []
                       | BodyRejected \<Rightarrow> errorMarker
                       | Body fetched \<Rightarrow>
                           if NUL \<in> set fetched then binaryMarker
                           else if length fetched > 20000
                           then take 20000 fetched @ truncatedSuffix
                           else fetched)
                    else [])
             in Some \<lparr>path = filePath, changeType = changeType, content = Some content,
                      originalPath = orElse (sourceServerItem change) (Change.originalPath change)\<rparr>))"

text \<open>\<open>Promise.all\<close> over the changes, then the entries that are not \<open>null\<close>.\<close>

definition fetchBatchContents ::
  "(string \<Rightarrow> string) \<Rightarrow> (AzureDevOpsParams \<Rightarrow> string \<Rightarrow> string \<Rightarrow> string option \<Rightarrow> HttpOutcome) \<Rightarrow>
   AzureDevOpsParams \<Rightarrow> string \<Rightarrow> Change list \<Rightarrow> string option \<Rightarrow> FileDiff list" where
  "fetchBatchContents toLowerCase getItem params pat changes commitId =
     List.map_filter (fetchChange toLowerCase getItem params pat commitId) changes"

text \<open>The fetched text as it is stored when it holds no NUL.\<close>

definition cut :: "string \<Rightarrow> string" where
  "cut fetched = (if length fetched > 20000 then take 20000 fetched @ truncatedSuffix else fetched)"

text \<open>Sample data for the witnesses: lower-casing of the change types that occur, and a
  server that knows three files.\<close>

definition sampleLower :: "string \<Rightarrow> string" where
  "sampleLower s = (if s = ''Delete'' then ''delete'' else s)"

definition sampleParams :: AzureDevOpsParams where
  "sampleParams = \<lparr>organization = Some ''org'', project = Some ''proj'',
                    repository = Some ''repo'', pullRequestId = Some ''42''\<rparr>"

definition sampleItems :: "AzureDevOpsParams \<Rightarrow> string \<Rightarrow> string \<Rightarrow> string option \<Rightarrow> HttpOutcome" where
  "sampleItems ps pat p commit =
     (if p = ''/src/a.ts'' then Body ''let a = 1''
      else if p = ''/img/logo.png'' then Body [CHR ''P'', NUL, CHR ''N'']
      else if p = ''/src/gone.ts'' then NotOk
      else Rejected)"

definition editOf :: "string \<Rightarrow> Change" where
  "editOf p = \<lparr>item = Some (ItemObject (Some p)), path = None, changeType = Some ''edit'',
               sourceServerItem = None, originalPath = None\<rparr>"

definition pathless :: Change where
  "pathless = \<lparr>item = None, path = None, changeType = Some ''edit'',
               sourceServerItem = None, originalPath = None\<rparr>"

definition sampleBatch :: "Change list" where
  "sampleBatch = [editOf ''/src/a.ts'', pathless, editOf ''/img/logo.png'']"


section \<open>The analysis returned by the AI call\<close>

text \<open>
  The types of \<open>types.ts\<close>. String literal unions are datatypes; a \<open>number\<close> that is
  only stored is an \<open>int\<close>; an optional field is an \<open>option\<close>.
\<close>

record PRInfo =
  title :: string
  description :: string
  createdBy :: string
  sourceBranch :: string
  targetBranch :: string
  status :: string

datatype OverallHealth = Excellent | Good | NeedsImprovement | Critical
datatype RiskLevel = Low | Medium | High | Critical
datatype BlastRadius = Isolated | ModuleWide | SystemWide
datatype TestPresence = Missing | Partial | Comprehensive
datatype Severity = low | medium | high
datatype CommentType = logic | security | style | performance | contract

record BossStats =
  complexityScore :: int
  riskLevel :: RiskLevel
  estimatedReviewMinutes :: int
  blastRadius :: BlastRadius
  testPresence :: TestPresence
  breakingChange :: bool

record CodeReviewComment =
  "file" :: string
  line :: "int option"
  comment :: string
  suggestedChange :: "string option"
  severity :: Severity
  type :: CommentType

record PRAnalysis =
  summary :: string
  overallHealth :: OverallHealth
  architecturalImpact :: string
  contextAlignment :: "string option"
  keyPoints :: "string list"
  securityConcerns :: "string list"
  performanceTips :: "string list"
  stats :: BossStats
  codeReviewComments :: "CodeReviewComment list"


section \<open>The GLM service's \<open>analyzeBatch\<close>\<close>

text \<open>
  The answer of the chat-completions client, as far as it is read:
  \<open>response.choices[0]?.message?.content\<close>.
\<close>

record ChatMessage =
  content :: "string option"

record ChatChoice =
  message :: "ChatMessage option"

record ChatCompletion =
  choices :: "ChatChoice list"

definition firstContent :: "ChatCompletion \<Rightarrow> string option" where
  "firstContent response =
     (case choices response of
        [] \<Rightarrow> None
      | choice # _ \<Rightarrow> (case message choice of None \<Rightarrow> None | Some m \<Rightarrow> content m))"

text \<open>
  What lies outside the repository is a parameter: the environment's API key, the client's
  \<open>chat.completions.create\<close> (keyed by what the prompt is built from; the batch index
  and the number of batches are not part of the prompt), and \<open>JSON.parse\<close> into a type
  \<open>'j\<close> of parsed values. The last part of the \<open>try\<close> block, which reads the parsed
  value and returns it as it is, reshapes it or builds a minimal analysis, is a function
  \<open>reshape\<close> of the parsed value that returns an analysis or throws (reading a property
  of \<open>null\<close> does); the property below holds for every such function.
\<close>

record 'j GlmPlatform =
  GLM_API_KEY :: "string option"
  create :: "PRInfo \<Rightarrow> FileDiff list \<Rightarrow> string \<Rightarrow> string \<Rightarrow> error + ChatCompletion"
  jsonParse :: "string \<Rightarrow> error + 'j"
  reshape :: "'j \<Rightarrow> error + PRAnalysis"

text \<open>
  \<open>content.match(/\{[\s\S]*\}/)\<close>: from the first opening brace to the last closing
  brace after it, if there is one.
\<close>

definition jsonMatch :: "string \<Rightarrow> string option" where
  "jsonMatch s =
     (case dropWhile (\<lambda>c. c \<noteq> CHR ''{'') s of
        [] \<Rightarrow> None
      | brace # rest \<Rightarrow>
          if CHR ''}'' \<in> set rest
          then Some (brace # rev (dropWhile (\<lambda>c. c \<noteq> CHR ''}'') (rev rest)))
          else None)"

text \<open>The two attempts at parsing the content; the second failure is rethrown with a fixed
  message.\<close>

definition parseContent :: "'j GlmPlatform \<Rightarrow> string \<Rightarrow> error + 'j" where
  "parseContent platform s =
     (case jsonParse platform s of
        Inr parsed \<Rightarrow> Inr parsed
      | Inl firstParseError \<Rightarrow>
          (case (case jsonMatch s of
                   Some matched \<Rightarrow> jsonParse platform matched
                 | None \<Rightarrow> Inl (Error ''Could not extract valid JSON from response'')) of
             Inr parsed \<Rightarrow> Inr parsed
           | Inl secondParseError \<Rightarrow> Inl (Error ''Failed to parse GLM response as JSON'')))"

text \<open>The \<open>try\<close> block.\<close>

definition analyzeBatch_try ::
  "'j GlmPlatform \<Rightarrow> PRInfo \<Rightarrow> FileDiff list \<Rightarrow> nat \<Rightarrow> nat \<Rightarrow> string \<Rightarrow> string \<Rightarrow> error + PRAnalysis" where
  "analyzeBatch_try platform prInfo changes batchIndex totalBatches customInstructions systemContext =
     (case create platform prInfo changes customInstructions systemContext of
        Inl e \<Rightarrow> Inl e
      | Inr response \<Rightarrow>
          (case firstContent response of
             None \<Rightarrow> Inl (Error ''Empty response from GLM'')
           | Some s \<Rightarrow>
               if s = [] then Inl (Error ''Empty response from GLM'')
               else
                 (case parseContent platform s of
                    Inl e \<Rightarrow> Inl e
                  | Inr parsed \<Rightarrow> reshape platform parsed)))"

text \<open>The analysis built in the \<open>catch\<close> block from the caught error.\<close>

definition failedAnalysis :: "error \<Rightarrow> PRAnalysis" where
  "failedAnalysis caught =
     \<lparr>summary = ''Analysis failed - please try again'',
      overallHealth = OverallHealth.Critical,
      architecturalImpact = ''Unable to analyze'',
      contextAlignment = Some ''Analysis incomplete'',
      keyPoints = [''Analysis failed''],
      securityConcerns = [''Unable to complete security analysis''],
      performanceTips = [''Unable to analyze performance''],
      stats = \<lparr>complexityScore = 1, riskLevel = RiskLevel.Critical, estimatedReviewMinutes = 0,
               blastRadius = Isolated, testPresence = Missing, breakingChange = False\<rparr>,
      codeReviewComments =
        [\<lparr>file = ''analysis'', line = Some 1,
          comment = ''Analysis failed: '' @
            (if error.message caught \<noteq> [] then error.message caught else ''Unknown error''),
          suggestedChange = None, severity = high, type = logic\<rparr>]\<rparr>"

text \<open>The function: the key check before the \<open>try\<close> throws, the \<open>catch\<close> returns.\<close>

definition analyzeBatch ::
  "'j GlmPlatform \<Rightarrow> PRInfo \<Rightarrow> FileDiff list \<Rightarrow> nat \<Rightarrow> nat \<Rightarrow> string \<Rightarrow> string \<Rightarrow> error + PRAnalysis" where
  "analyzeBatch platform prInfo changes batchIndex totalBatches customInstructions systemContext =
     (if missing (GLM_API_KEY platform) then Inl (Error ''GLM API Key is missing.'')
      else
        (case analyzeBatch_try platform prInfo changes batchIndex totalBatches
                customInstructions systemContext of
           Inr result \<Rightarrow> Inr result
         | Inl caught \<Rightarrow> Inr (failedAnalysis caught)))"

text \<open>Sample platforms for the witness: one whose client throws, one whose answer is not
  JSON. Parsed values are strings here.\<close>

definition samplePRInfo :: PRInfo where
  "samplePRInfo = \<lparr>title = ''Fix login'', description = ''No description provided.'',
                    createdBy = ''Ann'', sourceBranch = ''fix'', targetBranch = ''main'',
                    status = ''active''\<rparr>"

definition downPlatform :: "string GlmPlatform" where
  "downPlatform =
     \<lparr>GLM_API_KEY = Some ''key'',
      create = (\<lambda>info files instructions context. Inl (Error ''429 rate limited'')),
      jsonParse = (\<lambda>s. Inl (Error ''Unexpected token'')),
      reshape = (\<lambda>parsed. Inl (Error ''unreachable''))\<rparr>"

definition garbledPlatform :: "string GlmPlatform" where
  "garbledPlatform =
     \<lparr>GLM_API_KEY = Some ''key'',
      create = (\<lambda>info files instructions context.
                 Inr \<lparr>choices = [\<lparr>message = Some \<lparr>content = Some ''sorry, no''\<rparr>\<rparr>]\<rparr>),
      jsonParse = (\<lambda>s. Inl (Error ''Unexpected token'')),
      reshape = (\<lambda>parsed. Inl (Error ''unreachable''))\<rparr>"


section \<open>The analysis page: first batch and next batches (App component)\<close>

text \<open>
  The arguments of one call of the provider's \<open>analyzeBatch\<close>, recorded so that what a
  handler sends can be stated.
\<close>

datatype AIProvider = gemini | glm

record AICall =
  provider :: AIProvider
  prInfo :: PRInfo
  changes :: "FileDiff list"
  batchIndex :: nat
  totalBatches :: nat
  customInstructions :: string
  systemContext :: string

text \<open>
  The values the handlers read from the component besides \<open>state\<close>: the form fields and
  the settings.
\<close>

record Inputs =
  url :: string
  pat :: string
  aiProvider :: AIProvider
  systemInstructions :: string
  systemContext :: string

record AppState =
  isAnalyzing :: bool
  error :: "string option"
  prInfo :: "PRInfo option"
  analysis :: "PRAnalysis option"
  allChanges :: "Change list"
  processedCount :: nat
  commitId :: "string option"
  params :: "AzureDevOpsParams option"
  systemInstructions :: string
  systemContext :: string
  aiProvider :: AIProvider

text \<open>
  The world outside the handlers: the platform's URL parser and lower-casing, the requests
  for file contents, the two service calls \<open>getPRDetails\<close> and \<open>getPRMetadata\<close> with
  their answers (each throws or returns), and the two providers' \<open>analyzeBatch\<close>.
\<close>

record World =
  newURL :: "string \<Rightarrow> error + URL"
  toLowerCase :: "string \<Rightarrow> string"
  getItem :: "AzureDevOpsParams \<Rightarrow> string \<Rightarrow> string \<Rightarrow> string option \<Rightarrow> HttpOutcome"
  getPRDetails :: "AzureDevOpsParams \<Rightarrow> string \<Rightarrow> error + PRInfo"
  getPRMetadata :: "AzureDevOpsParams \<Rightarrow> string \<Rightarrow> error + (string option \<times> Change list)"
  geminiAnalyzeBatch :: "PRInfo \<Rightarrow> FileDiff list \<Rightarrow> nat \<Rightarrow> nat \<Rightarrow> string \<Rightarrow> string \<Rightarrow> error + PRAnalysis"
  glmAnalyzeBatch :: "PRInfo \<Rightarrow> FileDiff list \<Rightarrow> nat \<Rightarrow> nat \<Rightarrow> string \<Rightarrow> string \<Rightarrow> error + PRAnalysis"

text \<open>
  \<open>const analyzeFunction = aiProvider === "glm" ? glmAnalyzeBatch : geminiAnalyzeBatch\<close>,
  applied to the arguments of a call.
\<close>

definition analyzeFunction :: "World \<Rightarrow> AICall \<Rightarrow> error + PRAnalysis" where
  "analyzeFunction w call =
     (if provider call = glm then glmAnalyzeBatch w else geminiAnalyzeBatch w)
       (AICall.prInfo call) (changes call) (batchIndex call) (totalBatches call)
       (customInstructions call) (AICall.systemContext call)"

text \<open>\<open>xs.slice(a, b)\<close> for indices that are not negative.\<close>

definition slice :: "nat \<Rightarrow> nat \<Rightarrow> 'a list \<Rightarrow> 'a list" where
  "slice a b xs = take (b - a) (drop a xs)"

text \<open>The call that \<open>startAnalysis\<close> makes for the first batch.\<close>

definition firstCall :: "World \<Rightarrow> Inputs \<Rightarrow> AzureDevOpsParams \<Rightarrow> PRInfo \<Rightarrow> string option \<Rightarrow> Change list \<Rightarrow> AICall" where
  "firstCall w inp ps info commit found =
     (let firstBatch = slice 0 10 found;
          fileContents = fetchBatchContents (toLowerCase w) (getItem w) ps (pat inp) firstBatch commit
      in \<lparr>provider = Inputs.aiProvider inp, prInfo = info, changes = fileContents,
          batchIndex = 0, totalBatches = nat \<lceil>real (length found) / 10\<rceil>,
          customInstructions = Inputs.systemInstructions inp,
          systemContext = Inputs.systemContext inp\<rparr>)"

text \<open>
  The \<open>try\<close> block of \<open>startAnalysis\<close>, from the state set just before it: the new state
  or the thrown error, and the calls sent to the provider.
\<close>

definition startAnalysis_try ::
  "World \<Rightarrow> Inputs \<Rightarrow> AzureDevOpsParams \<Rightarrow> AppState \<Rightarrow> (error + AppState) \<times> AICall list" where
  "startAnalysis_try w inp ps prev =
     (case getPRDetails w ps (pat inp) of
        Inl e \<Rightarrow> (Inl e, [])
      | Inr info \<Rightarrow>
          if toLowerCase w (status info) = ''abandoned''
          then (Inr (prev\<lparr>isAnalyzing := False, error := Some ''This PR is abandoned.''\<rparr>), [])
          else
            (case getPRMetadata w ps (pat inp) of
               Inl e \<Rightarrow> (Inl e, [])
             | Inr (commit, found) \<Rightarrow>
                 if length found = 0 then (Inl (Error ''No changes found.''), [])
                 else
                   (let firstBatch = slice 0 10 found;
                        call = firstCall w inp ps info commit found
                    in case analyzeFunction w call of
                         Inl e \<Rightarrow> (Inl e, [call])
                       | Inr initialAnalysis \<Rightarrow>
                           (Inr (prev\<lparr>isAnalyzing := False, error := None, prInfo := Some info,
                                      analysis := Some initialAnalysis, allChanges := found,
                                      processedCount := length firstBatch, commitId := commit\<rparr>),
                            [call]))))"

text \<open>
  \<open>startAnalysis\<close>: the state after the handler has run, and the calls it sent. The
  \<open>catch\<close> block stores the message of the error. (\<open>parsePRUrl\<close> is called outside the
  \<open>try\<close>; it never throws, and a throw would leave the state as it is.)
\<close>

definition startAnalysis :: "World \<Rightarrow> Inputs \<Rightarrow> AppState \<Rightarrow> AppState \<times> AICall list" where
  "startAnalysis w inp state =
     (if url inp = [] \<or> pat inp = []
      then (state\<lparr>error := Some ''Pull Request URL and PAT are required.''\<rparr>, [])
      else
        (case parsePRUrl (newURL w) (url inp) of
           Inl e \<Rightarrow> (state, [])
         | Inr None \<Rightarrow> (state\<lparr>error := Some ''Invalid Azure DevOps PR URL format.''\<rparr>, [])
         | Inr (Some ps) \<Rightarrow>
             (let reset = \<lparr>isAnalyzing = True, error = None, prInfo = None, analysis = None,
                           allChanges = [], processedCount = 0, commitId = None, params = Some ps,
                           systemInstructions = Inputs.systemInstructions inp,
                           systemContext = Inputs.systemContext inp,
                           aiProvider = Inputs.aiProvider inp\<rparr>
              in case startAnalysis_try w inp ps reset of
                   (Inr state', calls) \<Rightarrow> (state', calls)
                 | (Inl err, calls) \<Rightarrow>
                     (reset\<lparr>isAnalyzing := False, error := Some (error.message err)\<rparr>, calls))))"

text \<open>The call that \<open>loadNextBatch\<close> makes, from the state the handler closes over.\<close>

definition nextBatch :: "AppState \<Rightarrow> Change list" where
  "nextBatch state = slice (processedCount state) (processedCount state + 10) (allChanges state)"

definition nextCall :: "World \<Rightarrow> Inputs \<Rightarrow> AppState \<Rightarrow> AzureDevOpsParams \<Rightarrow> PRInfo \<Rightarrow> AICall" where
  "nextCall w inp state ps info =
     (let fileContents =
            fetchBatchContents (toLowerCase w) (getItem w) ps (pat inp) (nextBatch state) (commitId state)
      in \<lparr>provider = Inputs.aiProvider inp, prInfo = info, changes = fileContents,
          batchIndex = nat \<lfloor>real (processedCount state) / 10\<rfloor>,
          totalBatches = nat \<lceil>real (length (allChanges state)) / 10\<rceil>,
          customInstructions = Inputs.systemInstructions inp,
          systemContext = Inputs.systemContext inp\<rparr>)"

text \<open>The merged analysis built in the state update of \<open>loadNextBatch\<close>.\<close>

definition merged :: "PRAnalysis option \<Rightarrow> PRAnalysis \<Rightarrow> PRAnalysis" where
  "merged previous batchAnalysis =
     (let mergedStats = stats batchAnalysis
      in \<lparr>summary = summary batchAnalysis,
          overallHealth = overallHealth batchAnalysis,
          architecturalImpact = architecturalImpact batchAnalysis,
          contextAlignment = contextAlignment batchAnalysis,
          keyPoints =
            (case previous of Some a \<Rightarrow> keyPoints a | None \<Rightarrow> []) @ keyPoints batchAnalysis,
          securityConcerns =
            (case previous of Some a \<Rightarrow> securityConcerns a | None \<Rightarrow> []) @
            securityConcerns batchAnalysis,
          performanceTips =
            (case previous of Some a \<Rightarrow> performanceTips a | None \<Rightarrow> []) @
            performanceTips batchAnalysis,
          stats = mergedStats,
          codeReviewComments =
            (case previous of Some a \<Rightarrow> codeReviewComments a | None \<Rightarrow> []) @
            codeReviewComments batchAnalysis\<rparr>)"

text \<open>
  \<open>loadNextBatch\<close>. The handler reads \<open>state\<close>, the state of the render it belongs to;
  its state updates are functions of \<open>prev\<close>, the state they find. The result is the
  state after the handler's updates have been applied to \<open>prev\<close>, and the calls sent.
\<close>

definition loadNextBatch :: "World \<Rightarrow> Inputs \<Rightarrow> AppState \<Rightarrow> AppState \<Rightarrow> AppState \<times> AICall list" where
  "loadNextBatch w inp state prev =
     (case (AppState.prInfo state, params state) of
        (Some info, Some ps) \<Rightarrow>
          if length (allChanges state) = 0 then (prev, [])
          else
            (let prev' = prev\<lparr>isAnalyzing := True\<rparr>;
                 call = nextCall w inp state ps info
             in case analyzeFunction w call of
                  Inr batchAnalysis \<Rightarrow>
                    (prev'\<lparr>isAnalyzing := False,
                            analysis := Some (merged (analysis prev') batchAnalysis),
                            processedCount := processedCount prev' + length (nextBatch state)\<rparr>,
                     [call])
                | Inl err \<Rightarrow>
                    (prev'\<lparr>isAnalyzing := False,
                            error := Some (''Batch failed: '' @ error.message err)\<rparr>,
                     [call]))
      | _ \<Rightarrow> (prev, []))"

text \<open>
  Sample data for the witnesses: the initial state of the component, a form, an analysis,
  a pull request of twelve changed files, the state after its first ten, and a pull
  request whose only change has no path.
\<close>

definition initialState :: AppState where
  "initialState =
     \<lparr>isAnalyzing = False, error = None, prInfo = None, analysis = None, allChanges = [],
      processedCount = 0, commitId = None, params = None, systemInstructions = [],
      systemContext = [], aiProvider = gemini\<rparr>"

definition sampleInputs :: Inputs where
  "sampleInputs =
     \<lparr>url = ''https://dev.azure.com/org/proj/_git/repo/pullrequest/42'', pat = ''token'',
      aiProvider = glm, systemInstructions = [], systemContext = []\<rparr>"

definition sampleAnalysis :: "string \<Rightarrow> PRAnalysis" where
  "sampleAnalysis label =
     \<lparr>summary = label, overallHealth = Good, architecturalImpact = ''none'',
      contextAlignment = None, keyPoints = [label], securityConcerns = [],
      performanceTips = [label],
      stats = \<lparr>complexityScore = 3, riskLevel = Low, estimatedReviewMinutes = 10,
               blastRadius = Isolated, testPresence = Partial, breakingChange = False\<rparr>,
      codeReviewComments =
        [\<lparr>file = ''/src/a.ts'', line = None, comment = label, suggestedChange = None,
          severity = low, type = style\<rparr>]\<rparr>"

definition twelveChanges :: "Change list" where
  "twelveChanges = replicate 11 (editOf ''/src/a.ts'') @ [editOf ''/img/logo.png'']"

definition sampleWorld :: World where
  "sampleWorld =
     \<lparr>newURL = sampleURL, toLowerCase = sampleLower, getItem = sampleItems,
      getPRDetails = (\<lambda>ps token. Inr samplePRInfo),
      getPRMetadata = (\<lambda>ps token. Inr (Some ''c0ffee'', twelveChanges)),
      geminiAnalyzeBatch = (\<lambda>info files i n instructions context. Inr (sampleAnalysis ''gemini'')),
      glmAnalyzeBatch = (\<lambda>info files i n instructions context.
         Inr (sampleAnalysis (if i = 0 then ''first'' else ''next'')))\<rparr>"

definition pathlessWorld :: World where
  "pathlessWorld = sampleWorld\<lparr>getPRMetadata := (\<lambda>ps token. Inr (None, [pathless]))\<rparr>"

definition tenDone :: AppState where
  "tenDone =
     \<lparr>isAnalyzing = False, error = None, prInfo = Some samplePRInfo,
      analysis = Some (sampleAnalysis ''first''), allChanges = twelveChanges,
      processedCount = 10, commitId = Some ''c0ffee'', params = Some sampleParams,
      systemInstructions = [], systemContext = [], aiProvider = glm\<rparr>"


section \<open>Side-by-side line diff (PRReviewAnalysis component)\<close>

datatype DiffLineType = Same | Added | Removed | Empty

record DiffLine =
  "text" :: string
  lineNumber :: "nat option"
  type :: DiffLineType

record SideBySide =
  left :: "DiffLine list"
  right :: "DiffLine list"

text \<open>
  \<open>normalizeContent\<close>: a string is returned as it is, \<open>null\<close> and \<open>undefined\<close>
  (here \<open>None\<close>) become the empty string. \<open>buildSideBySideDiff\<close> declares both
  arguments as strings, so the \<open>String(value)\<close> branch for other values is not reached
  from it.
\<close>

definition normalizeContent :: "string option \<Rightarrow> string" where
  "normalizeContent v = (case v of Some s \<Rightarrow> s | None \<Rightarrow> [])"

text \<open>
  \<open>text.split(/\r?\n/)\<close>: the separator matches at a line feed, or at a carriage return
  that is directly followed by a line feed; a carriage return followed by anything else
  stays in its line. The result is never empty: the empty string gives one empty line.
\<close>

fun onFirstLine :: "char \<Rightarrow> string list \<Rightarrow> string list" where
  "onFirstLine c [] = [[c]]"
| "onFirstLine c (l # ls) = (c # l) # ls"

fun splitLines :: "string \<Rightarrow> string list" where
  "splitLines [] = [[]]"
| "splitLines [c] = (if c = LF then [[], []] else [[c]])"
| "splitLines (c # d # cs) =
     (if c = CR \<and> d = LF then [] # splitLines cs
      else if c = LF then [] # splitLines (d # cs)
      else onFirstLine c (splitLines (d # cs)))"

text \<open>
  The table of the dynamic programme: \<open>sourceLength + 1\<close> rows of \<open>targetLength + 1\<close>
  zeros, filled row by row. The two \<open>for\<close> loops run over \<open>1..sourceLength\<close> and
  \<open>1..targetLength\<close>; every index they read is in range.
\<close>

definition initTable :: "nat \<Rightarrow> nat \<Rightarrow> nat list list" where
  "initTable sourceLength targetLength =
     replicate (sourceLength + 1) (replicate (targetLength + 1) 0)"

definition fillCell :: "string list \<Rightarrow> string list \<Rightarrow> nat \<Rightarrow> nat \<Rightarrow> nat list list \<Rightarrow> nat list list" where
  "fillCell sourceLines targetLines i j lcsTable =
     (if sourceLines ! (i - 1) = targetLines ! (j - 1)
      then lcsTable[i := (lcsTable ! i)[j := lcsTable ! (i - 1) ! (j - 1) + 1]]
      else lcsTable[i := (lcsTable ! i)[j := max (lcsTable ! (i - 1) ! j) (lcsTable ! i ! (j - 1))]])"

definition fillRow :: "string list \<Rightarrow> string list \<Rightarrow> nat \<Rightarrow> nat list list \<Rightarrow> nat list list" where
  "fillRow sourceLines targetLines i lcsTable =
     fold (fillCell sourceLines targetLines i) [1..<length targetLines + 1] lcsTable"

definition fillTable :: "string list \<Rightarrow> string list \<Rightarrow> nat list list" where
  "fillTable sourceLines targetLines =
     fold (fillRow sourceLines targetLines) [1..<length sourceLines + 1]
       (initTable (length sourceLines) (length targetLines))"

text \<open>
  The \<open>while (i > 0 || j > 0)\<close> loop walks back from the bottom right corner and pushes
  one entry on each side per step; \<open>push\<close> appends at the end.
\<close>

function backtrack ::
  "nat list list \<Rightarrow> string list \<Rightarrow> string list \<Rightarrow> nat \<Rightarrow> nat \<Rightarrow>
   DiffLine list \<Rightarrow> DiffLine list \<Rightarrow> DiffLine list \<times> DiffLine list" where
  "backtrack lcsTable sourceLines targetLines i j l r =
     (if i > 0 \<or> j > 0 then
        if i > 0 \<and> j > 0 \<and> sourceLines ! (i - 1) = targetLines ! (j - 1) then
          backtrack lcsTable sourceLines targetLines (i - 1) (j - 1)
            (l @ [\<lparr>text = sourceLines ! (i - 1), lineNumber = Some i, type = Same\<rparr>])
            (r @ [\<lparr>text = targetLines ! (j - 1), lineNumber = Some j, type = Same\<rparr>])
        else if j > 0 \<and> (i = 0 \<or> lcsTable ! i ! (j - 1) \<ge> lcsTable ! (i - 1) ! j) then
          backtrack lcsTable sourceLines targetLines i (j - 1)
            (l @ [\<lparr>text = [], lineNumber = None, type = Empty\<rparr>])
            (r @ [\<lparr>text = targetLines ! (j - 1), lineNumber = Some j, type = Added\<rparr>])
        else
          backtrack lcsTable sourceLines targetLines (i - 1) j
            (l @ [\<lparr>text = sourceLines ! (i - 1), lineNumber = Some i, type = Removed\<rparr>])
            (r @ [\<lparr>text = [], lineNumber = None, type = Empty\<rparr>])
      else (l, r))"
  by pat_completeness auto
termination
  by (relation "measure (\<lambda>(lcsTable, sourceLines, targetLines, i, j, l, r). i + j)") auto

definition buildSideBySideDiff :: "string \<Rightarrow> string \<Rightarrow> SideBySide" where
  "buildSideBySideDiff source target =
     (let sourceText = normalizeContent (Some source);
          targetText = normalizeContent (Some target);
          sourceLines = splitLines sourceText;
          targetLines = splitLines targetText;
          sourceLength = length sourceLines;
          targetLength = length targetLines;
          lcsTable = fillTable sourceLines targetLines;
          (l, r) = backtrack lcsTable sourceLines targetLines sourceLength targetLength [] []
      in \<lparr>left = rev l, right = rev r\<rparr>)"

text \<open>
  \<open>buildUnifiedDiffText\<close>: two header lines, then one line per index of the
  side-by-side diff, joined with line feeds.
\<close>

definition unifiedLine :: "DiffLine \<Rightarrow> DiffLine \<Rightarrow> string" where
  "unifiedLine leftLine rightLine =
     (if type rightLine = Added then CHR ''+'' # text rightLine
      else if type leftLine = Removed then CHR ''-'' # text leftLine
      else CHR '' '' # text leftLine)"

definition unifiedDiffLines :: "string \<Rightarrow> string \<Rightarrow> string \<Rightarrow> string list" where
  "unifiedDiffLines baseText updatedText filePath =
     (let diff = buildSideBySideDiff baseText updatedText
      in fold (\<lambda>index lines. lines @ [unifiedLine (left diff ! index) (right diff ! index)])
           [0..<length (left diff)]
           [''--- a/'' @ filePath, ''+++ b/'' @ filePath])"

fun joinWith :: "string \<Rightarrow> string list \<Rightarrow> string" where
  "joinWith sep [] = []"
| "joinWith sep [l] = l"
| "joinWith sep (l # l' # ls) = l @ sep @ joinWith sep (l' # ls)"

definition buildUnifiedDiffText :: "string \<Rightarrow> string \<Rightarrow> string \<Rightarrow> string" where
  "buildUnifiedDiffText baseText updatedText filePath =
     joinWith [LF] (unifiedDiffLines baseText updatedText filePath)"

subsection \<open>Notions used to state the properties of the diff\<close>

text \<open>
  The reference for the table: the length of a longest common subsequence by the usual
  recursion on the first elements, read on reversed prefixes because the table grows by
  last elements.
\<close>

fun lcsLength :: "'a list \<Rightarrow> 'a list \<Rightarrow> nat" where
  "lcsLength [] ys = 0"
| "lcsLength (x # xs) [] = 0"
| "lcsLength (x # xs) (y # ys) =
     (if x = y then Suc (lcsLength xs ys) else max (lcsLength xs (y # ys)) (lcsLength (x # xs) ys))"

definition prefixLcs :: "'a list \<Rightarrow> 'a list \<Rightarrow> nat \<Rightarrow> nat \<Rightarrow> nat" where
  "prefixLcs xs ys i j = lcsLength (rev (take i xs)) (rev (take j ys))"

definition tableShape :: "nat \<Rightarrow> nat \<Rightarrow> nat list list \<Rightarrow> bool" where
  "tableShape n m t \<longleftrightarrow> length t = n + 1 \<and> (\<forall>r\<le>n. length (t ! r) = m + 1) \<and> (\<forall>r\<le>n. t ! r ! 0 = 0)"

definition tableUpTo :: "string list \<Rightarrow> string list \<Rightarrow> nat \<Rightarrow> nat list list \<Rightarrow> bool" where
  "tableUpTo xs ys i t \<longleftrightarrow>
     tableShape (length xs) (length ys) t \<and>
     (\<forall>r<i. \<forall>c\<le>length ys. t ! r ! c = prefixLcs xs ys r c)"

definition rowUpTo :: "string list \<Rightarrow> string list \<Rightarrow> nat \<Rightarrow> nat \<Rightarrow> nat list list \<Rightarrow> bool" where
  "rowUpTo xs ys i j t \<longleftrightarrow>
     tableUpTo xs ys i t \<and> (\<forall>c<j. t ! i ! c = prefixLcs xs ys i c)"

text \<open>
  The entries pushed by the loop of \<open>backtrack\<close>, as pairs and without the
  accumulators.
\<close>

function steps ::
  "nat list list \<Rightarrow> string list \<Rightarrow> string list \<Rightarrow> nat \<Rightarrow> nat \<Rightarrow> (DiffLine \<times> DiffLine) list" where
  "steps lcsTable sourceLines targetLines i j =
     (if i > 0 \<or> j > 0 then
        if i > 0 \<and> j > 0 \<and> sourceLines ! (i - 1) = targetLines ! (j - 1) then
          (\<lparr>text = sourceLines ! (i - 1), lineNumber = Some i, type = Same\<rparr>,
           \<lparr>text = targetLines ! (j - 1), lineNumber = Some j, type = Same\<rparr>)
          # steps lcsTable sourceLines targetLines (i - 1) (j - 1)
        else if j > 0 \<and> (i = 0 \<or> lcsTable ! i ! (j - 1) \<ge> lcsTable ! (i - 1) ! j) then
          (\<lparr>text = [], lineNumber = None, type = Empty\<rparr>,
           \<lparr>text = targetLines ! (j - 1), lineNumber = Some j, type = Added\<rparr>)
          # steps lcsTable sourceLines targetLines i (j - 1)
        else
          (\<lparr>text = sourceLines ! (i - 1), lineNumber = Some i, type = Removed\<rparr>,
           \<lparr>text = [], lineNumber = None, type = Empty\<rparr>)
          # steps lcsTable sourceLines targetLines (i - 1) j
      else [])"
  by pat_completeness auto
termination
  by (relation "measure (\<lambda>(lcsTable, sourceLines, targetLines, i, j). i + j)") auto

definition rows :: "SideBySide \<Rightarrow> (DiffLine \<times> DiffLine) list" where
  "rows d = zip (left d) (right d)"

definition bothSame :: "DiffLine \<times> DiffLine \<Rightarrow> bool" where
  "bothSame p \<longleftrightarrow> type (fst p) = Same \<and> type (snd p) = Same"

text \<open>The entries of one side that are not placeholders, and the positions marked
  \<open>same\<close> on both sides.\<close>

definition withoutEmpty :: "DiffLine list \<Rightarrow> DiffLine list" where
  "withoutEmpty ls = filter (\<lambda>l. type l \<noteq> Empty) ls"

definition samePositions :: "SideBySide \<Rightarrow> nat list" where
  "samePositions d =
     filter (\<lambda>k. type (left d ! k) = Same \<and> type (right d ! k) = Same) [0..<length (left d)]"


section \<open>Properties of \<open>getPRReviewDetails\<close>\<close>

lemma orDefault_cases:
  "missing a \<Longrightarrow> orDefault a d = d"
  "a = Some s \<Longrightarrow> s \<noteq> [] \<Longrightarrow> orDefault a d = s"
  by (auto simp: orDefault_def missing_def)

lemma orElse_cases:
  "missing a \<Longrightarrow> orElse a b = b"
  "a = Some s \<Longrightarrow> s \<noteq> [] \<Longrightarrow> orElse a b = Some s"
  by (auto simp: orElse_def missing_def)

lemma toReviewer_Inr: "toReviewer r = Inr r' \<longleftrightarrow> sameReviewer r r'"
  by (cases r'; cases "PRReviewer.reviewer r'")
     (auto simp: toReviewer_def sameReviewer_def split: option.splits)

lemma toReviewer_Inl: "toReviewer r = Inl e \<longleftrightarrow> ReviewerData.reviewer r = None \<and> e = typeError"
  by (auto simp: toReviewer_def split: option.splits)

lemma toComment_Inr: "toComment c = Inr c' \<longleftrightarrow> sameComment c c'"
  by (cases c'; cases "PRReviewComment.author c'")
     (auto simp: toComment_def sameComment_def split: option.splits)

lemma toComment_Inl: "toComment c = Inl e \<longleftrightarrow> CommentData.author c = None \<and> e = typeError"
  by (auto simp: toComment_def split: option.splits)

lemma mapThrowing_Inr_D:
  "mapThrowing f xs = Inr ys \<Longrightarrow> list_all2 (\<lambda>x y. f x = Inr y) xs ys"
  by (induction xs arbitrary: ys) (auto split: sum.splits)

lemma mapThrowing_Inr_I:
  "list_all2 (\<lambda>x y. f x = Inr y) xs ys \<Longrightarrow> mapThrowing f xs = Inr ys"
  by (induction xs ys rule: list_all2_induct) auto

lemma mapThrowing_Inr:
  "mapThrowing f xs = Inr ys \<longleftrightarrow> list_all2 (\<lambda>x y. f x = Inr y) xs ys"
  using mapThrowing_Inr_D mapThrowing_Inr_I by blast

lemma mapThrowing_Inl:
  assumes "\<And>x e'. f x = Inl e' \<Longrightarrow> e' = e"
  shows "mapThrowing f xs = Inl e' \<longleftrightarrow> e' = e \<and> \<not> list_all (\<lambda>x. \<exists>y. f x = Inr y) xs"
proof (induction xs)
  case Nil
  show ?case by simp
next
  case (Cons x xs)
  show ?case
    using assms[of x] Cons.IH by (cases "f x"; cases "mapThrowing f xs") auto
qed


lemma mapIfPresent_Inr:
  "mapIfPresent f xs = Inr ys \<longleftrightarrow> list_all2 (\<lambda>x y. f x = Inr y) (orEmpty xs) ys"
  by (cases xs) (auto simp add: mapIfPresent_def orEmpty_def mapThrowing_Inr)

lemma mapIfPresent_Inl:
  assumes "\<And>x e'. f x = Inl e' \<Longrightarrow> e' = e"
  shows "mapIfPresent f xs = Inl e' \<longleftrightarrow> e' = e \<and> \<not> list_all (\<lambda>x. \<exists>y. f x = Inr y) (orEmpty xs)"
  using mapThrowing_Inl[of f e, OF assms]
  by (cases xs) (simp_all add: mapIfPresent_def orEmpty_def)

lemma toReviewer_ok: "(\<exists>y. toReviewer r = Inr y) \<longleftrightarrow> ReviewerData.reviewer r \<noteq> None"
  by (cases "ReviewerData.reviewer r") (simp_all add: toReviewer_def)

lemma toComment_ok: "(\<exists>y. toComment c = Inr y) \<longleftrightarrow> CommentData.author c \<noteq> None"
  by (cases "CommentData.author c") (simp_all add: toComment_def)

lemma mapped_comments:
  "mapIfPresent toComment cs = Inr ys \<longleftrightarrow> list_all2 sameComment (orEmpty cs) ys"
  by (simp add: mapIfPresent_Inr toComment_Inr)

lemma thrown_comments:
  "mapIfPresent toComment cs = Inl e \<longleftrightarrow>
   e = typeError \<and> \<not> list_all (\<lambda>c. CommentData.author c \<noteq> None) (orEmpty cs)"
  using mapIfPresent_Inl[of toComment typeError cs e]
  by (simp add: toComment_Inl toComment_ok)

lemma toThread_unfold:
  "toThread t =
     (case mapIfPresent toComment (ThreadData.comments t) of
        Inl e \<Rightarrow> Inl e
      | Inr mapped \<Rightarrow>
          Inr \<lparr>PRReviewThread.id = ThreadData.id t, PRReviewThread.status = ThreadData.status t,
               PRReviewThread.comments = mapped,
               PRReviewThread.threadContext = ThreadData.threadContext t,
               PRReviewThread.publishedDate = ThreadData.publishedDate t,
               PRReviewThread.lastUpdatedDate = ThreadData.lastUpdatedDate t\<rparr>)"
  by (simp add: toThread_def)

lemma toThread_Inr: "toThread t = Inr t' \<longleftrightarrow> sameThread t t'"
proof (cases "mapIfPresent toComment (ThreadData.comments t)")
  case (Inl e)
  then have "\<not> list_all2 sameComment (orEmpty (ThreadData.comments t)) (PRReviewThread.comments t')"
    using mapped_comments[of "ThreadData.comments t" "PRReviewThread.comments t'"] by simp
  with Inl show ?thesis
    by (simp add: toThread_unfold sameThread_def)
next
  case (Inr mapped)
  then have m: "list_all2 sameComment (orEmpty (ThreadData.comments t)) ys \<longleftrightarrow> ys = mapped" for ys
    using mapped_comments[of "ThreadData.comments t" ys] by auto
  show ?thesis
    by (cases t') (auto simp add: toThread_unfold Inr sameThread_def m)
qed

lemma toThread_Inl:
  "toThread t = Inl e \<longleftrightarrow>
   e = typeError \<and> \<not> list_all (\<lambda>c. CommentData.author c \<noteq> None) (orEmpty (ThreadData.comments t))"
  using thrown_comments[of "ThreadData.comments t" e]
  by (cases "mapIfPresent toComment (ThreadData.comments t)") (simp_all add: toThread_unfold)

lemma toThread_ok:
  "(\<exists>y. toThread t = Inr y) \<longleftrightarrow>
   list_all (\<lambda>c. CommentData.author c \<noteq> None) (orEmpty (ThreadData.comments t))"
  using toThread_Inl[of t] by (cases "toThread t") auto

lemma mapped_reviewers:
  "mapIfPresent toReviewer rs = Inr ys \<longleftrightarrow> list_all2 sameReviewer (orEmpty rs) ys"
  by (simp add: mapIfPresent_Inr toReviewer_Inr)

lemma thrown_reviewers:
  "mapIfPresent toReviewer rs = Inl e \<longleftrightarrow>
   e = typeError \<and> \<not> list_all (\<lambda>r. ReviewerData.reviewer r \<noteq> None) (orEmpty rs)"
  using mapIfPresent_Inl[of toReviewer typeError rs e]
  by (simp add: toReviewer_Inl toReviewer_ok)

lemma mapped_threads:
  "mapIfPresent toThread ts = Inr ys \<longleftrightarrow> list_all2 sameThread (orEmpty ts) ys"
  by (simp add: mapIfPresent_Inr toThread_Inr)

lemma thrown_threads:
  "mapIfPresent toThread ts = Inl e \<longleftrightarrow>
   e = typeError \<and>
   \<not> list_all (\<lambda>t. list_all (\<lambda>c. CommentData.author c \<noteq> None) (orEmpty (ThreadData.comments t)))
       (orEmpty ts)"
  using mapIfPresent_Inl[of toThread typeError ts e]
  by (simp add: toThread_Inl toThread_ok)

lemma orDefault_the: "orDefault a d = (if missing a then d else the a)"
  by (auto simp: orDefault_def missing_def split: option.splits)

lemma orElse_missing: "orElse a b = (if missing a then b else a)"
  by (auto simp: orElse_def missing_def split: option.splits)

lemma getPRReviewDetails_returns:
  assumes "fetchWithAuth ps token = Inr data"
    and "mapIfPresent toReviewer (PRData.reviewers data) = Inr rs"
    and "mapIfPresent toThread (PRData.threads data) = Inr ts"
  shows "getPRReviewDetails fetchWithAuth ps token =
     Inr \<lparr>PRReviewDetails.pullRequestId = PRData.pullRequestId data,
          PRReviewDetails.title = PRData.title data,
          PRReviewDetails.description = orDefault (PRData.description data) [],
          PRReviewDetails.createdBy =
            \<lparr>Creator.displayName =
               orDefault (Option.bind (PRData.createdBy data) CreatedByData.displayName) ''Unknown'',
             Creator.uniqueName =
               orDefault
                 (orElse (Option.bind (PRData.createdBy data) CreatedByData.uniqueName)
                         (Option.bind (PRData.createdBy data) CreatedByData.email))
                 ''unknown@example.com''\<rparr>,
          PRReviewDetails.creationDate = PRData.creationDate data,
          PRReviewDetails.sourceRefName = PRData.sourceRefName data,
          PRReviewDetails.targetRefName = PRData.targetRefName data,
          PRReviewDetails.status = PRData.status data,
          PRReviewDetails.mergeStatus = orDefault (PRData.mergeStatus data) ''unknown'',
          PRReviewDetails.reviewers = rs,
          PRReviewDetails.threads = ts,
          PRReviewDetails.url = PRData.url data,
          PRReviewDetails.repository =
            \<lparr>NamedUrl.name = orDefault (Option.bind (PRData.repository data) RepositoryData.name)
                     (PRReviewParams.repository ps),
             NamedUrl.url = orDefault (Option.bind (PRData.repository data) RepositoryData.url) []\<rparr>,
          PRReviewDetails.project =
            \<lparr>NamedUrl.name = orDefault
                     (Option.bind (Option.bind (PRData.repository data) RepositoryData.project)
                        ProjectData.name)
                     (PRReviewParams.project ps),
             NamedUrl.url = orDefault
                     (Option.bind (Option.bind (PRData.repository data) RepositoryData.project)
                        ProjectData.url) []\<rparr>\<rparr>"
  by (simp add: getPRReviewDetails_def assms)

lemma getPRReviewDetails_throws:
  assumes "fetchWithAuth ps token = Inr data" and "\<not> allNamed data"
  shows "getPRReviewDetails fetchWithAuth ps token = Inl typeError"
proof (cases "mapIfPresent toReviewer (PRData.reviewers data)")
  case (Inl e)
  then have "e = typeError" by (simp add: thrown_reviewers)
  with Inl assms(1) show ?thesis by (simp add: getPRReviewDetails_def)
next
  case (Inr rs)
  then have "list_all (\<lambda>r. ReviewerData.reviewer r \<noteq> None) (orEmpty (PRData.reviewers data))"
    using thrown_reviewers[of "PRData.reviewers data" typeError] by simp
  with assms(2) have "mapIfPresent toThread (PRData.threads data) = Inl typeError"
    by (simp add: allNamed_def thrown_threads)
  with Inr assms(1) show ?thesis by (simp add: getPRReviewDetails_def)
qed

text \<open>
  C7, as stated, fails: when the author of the pull request has no unique name but an
  e-mail address, the returned unique name is the e-mail address and not
  \<open>unknown@example.com\<close>.
\<close>

theorem review_details_counterexample:
  "sampleFetch sampleReviewParams ''token'' = Inr sampleData \<and>
   Option.bind (PRData.createdBy sampleData) CreatedByData.uniqueName = None \<and>
   getPRReviewDetails sampleFetch sampleReviewParams ''token'' = Inr sampleDetails \<and>
   Creator.uniqueName (PRReviewDetails.createdBy sampleDetails) = ''ann@corp.example'' \<and>
   Creator.uniqueName (PRReviewDetails.createdBy sampleDetails) \<noteq> ''unknown@example.com''"
proof -
  have fetch: "sampleFetch sampleReviewParams ''token'' = Inr sampleData"
    by (simp add: sampleFetch_def)
  have rs: "mapIfPresent toReviewer (PRData.reviewers sampleData) =
      Inr [\<lparr>PRReviewer.reviewer = ann, PRReviewer.vote = ''10'', PRReviewer.isRequired = ''true''\<rparr>]"
    by (simp add: sampleData_def mapIfPresent_def toReviewer_def ann_def)
  have ts: "mapIfPresent toThread (PRData.threads sampleData) =
      Inr [\<lparr>PRReviewThread.id = ''1'', PRReviewThread.status = ''active'',
          PRReviewThread.comments =
            [\<lparr>PRReviewComment.id = ''1'', PRReviewComment.author = ann,
              PRReviewComment.content = ''ok'', PRReviewComment.threadContext = ''null'',
              PRReviewComment.publishedDate = ''2024-01-02'',
              PRReviewComment.lastUpdatedDate = ''2024-01-02'',
              PRReviewComment.isDeleted = ''false''\<rparr>],
          PRReviewThread.threadContext = ''null'', PRReviewThread.publishedDate = ''2024-01-02'',
          PRReviewThread.lastUpdatedDate = ''2024-01-02''\<rparr>]"
    by (simp add: sampleData_def mapIfPresent_def toThread_def toComment_def ann_def)
  have absent: "Option.bind (PRData.createdBy sampleData) CreatedByData.uniqueName = None"
    by (simp add: sampleData_def)
  have result: "getPRReviewDetails sampleFetch sampleReviewParams ''token'' = Inr sampleDetails"
    unfolding getPRReviewDetails_returns[of sampleFetch sampleReviewParams "''token''" sampleData, OF fetch rs ts]
    by (simp add: sampleData_def sampleDetails_def sampleReviewParams_def orDefault_def orElse_def)
  have name: "Creator.uniqueName (PRReviewDetails.createdBy sampleDetails) = ''ann@corp.example''"
    by (simp add: sampleDetails_def)
  from fetch absent result name show ?thesis by simp
qed

text \<open>
  C7, amended. For every answer in which each reviewer entry names its reviewer and each
  comment its author, \<open>getPRReviewDetails\<close> returns details in which: the description
  is the answer's, or empty when absent; the author's display name is the answer's, or
  \<open>Unknown\<close> when absent or empty; the author's unique name is the answer's, or when that
  is absent or empty the author's e-mail address, or when that too is absent or empty
  \<open>unknown@example.com\<close>; the merge status is the answer's, or \<open>unknown\<close> when absent
  or empty; reviewers, threads and the comments of a thread are empty when absent and
  otherwise carry the fields of their entries unchanged; the repository and project names
  and addresses come from the answer's repository, with the request's repository and
  project names and the empty string as defaults; every other field is passed through
  unchanged. For any other answer the call throws.
\<close>

theorem review_details_defaults:
  assumes "fetchWithAuth ps token = Inr data"
  shows "(\<not> allNamed data \<longrightarrow> getPRReviewDetails fetchWithAuth ps token = Inl typeError) \<and>
   (allNamed data \<longrightarrow>
     (\<exists>d. getPRReviewDetails fetchWithAuth ps token = Inr d \<and>
        PRReviewDetails.pullRequestId d = PRData.pullRequestId data \<and>
        PRReviewDetails.title d = PRData.title data \<and>
        PRReviewDetails.creationDate d = PRData.creationDate data \<and>
        PRReviewDetails.sourceRefName d = PRData.sourceRefName data \<and>
        PRReviewDetails.targetRefName d = PRData.targetRefName data \<and>
        PRReviewDetails.status d = PRData.status data \<and>
        PRReviewDetails.url d = PRData.url data \<and>
        PRReviewDetails.description d =
          (case PRData.description data of None \<Rightarrow> [] | Some s \<Rightarrow> s) \<and>
        Creator.displayName (PRReviewDetails.createdBy d) =
          (case PRData.createdBy data of
             None \<Rightarrow> ''Unknown''
           | Some cb \<Rightarrow>
               if missing (CreatedByData.displayName cb) then ''Unknown''
               else the (CreatedByData.displayName cb)) \<and>
        Creator.uniqueName (PRReviewDetails.createdBy d) =
          (case PRData.createdBy data of
             None \<Rightarrow> ''unknown@example.com''
           | Some cb \<Rightarrow>
               if \<not> missing (CreatedByData.uniqueName cb) then the (CreatedByData.uniqueName cb)
               else if \<not> missing (CreatedByData.email cb) then the (CreatedByData.email cb)
               else ''unknown@example.com'') \<and>
        PRReviewDetails.mergeStatus d =
          (if missing (PRData.mergeStatus data) then ''unknown'' else the (PRData.mergeStatus data)) \<and>
        list_all2 sameReviewer (orEmpty (PRData.reviewers data)) (PRReviewDetails.reviewers d) \<and>
        list_all2 sameThread (orEmpty (PRData.threads data)) (PRReviewDetails.threads d) \<and>
        NamedUrl.name (PRReviewDetails.repository d) =
          (case PRData.repository data of
             None \<Rightarrow> PRReviewParams.repository ps
           | Some r \<Rightarrow>
               if missing (RepositoryData.name r) then PRReviewParams.repository ps
               else the (RepositoryData.name r)) \<and>
        NamedUrl.url (PRReviewDetails.repository d) =
          (case PRData.repository data of
             None \<Rightarrow> []
           | Some r \<Rightarrow> (case RepositoryData.url r of None \<Rightarrow> [] | Some s \<Rightarrow> s)) \<and>
        NamedUrl.name (PRReviewDetails.project d) =
          (case Option.bind (PRData.repository data) RepositoryData.project of
             None \<Rightarrow> PRReviewParams.project ps
           | Some p \<Rightarrow>
               if missing (ProjectData.name p) then PRReviewParams.project ps
               else the (ProjectData.name p)) \<and>
        NamedUrl.url (PRReviewDetails.project d) =
          (case Option.bind (PRData.repository data) RepositoryData.project of
             None \<Rightarrow> []
           | Some p \<Rightarrow> (case ProjectData.url p of None \<Rightarrow> [] | Some s \<Rightarrow> s))))"
proof (intro conjI impI)
  assume "\<not> allNamed data"
  with assms show "getPRReviewDetails fetchWithAuth ps token = Inl typeError"
    by (rule getPRReviewDetails_throws)
next
  assume named: "allNamed data"
  obtain rs where rs: "mapIfPresent toReviewer (PRData.reviewers data) = Inr rs"
    using named thrown_reviewers[of "PRData.reviewers data"]
    by (cases "mapIfPresent toReviewer (PRData.reviewers data)") (auto simp: allNamed_def)
  obtain ts where ts: "mapIfPresent toThread (PRData.threads data) = Inr ts"
    using named thrown_threads[of "PRData.threads data"]
    by (cases "mapIfPresent toThread (PRData.threads data)") (auto simp: allNamed_def)
  note R = getPRReviewDetails_returns[of fetchWithAuth ps token data rs ts, OF assms rs ts]
  define d where "d = projr (getPRReviewDetails fetchWithAuth ps token)"
  have d: "getPRReviewDetails fetchWithAuth ps token = Inr d"
    by (simp add: d_def R)
  have plain: "PRReviewDetails.pullRequestId d = PRData.pullRequestId data"
      "PRReviewDetails.title d = PRData.title data"
      "PRReviewDetails.creationDate d = PRData.creationDate data"
      "PRReviewDetails.sourceRefName d = PRData.sourceRefName data"
      "PRReviewDetails.targetRefName d = PRData.targetRefName data"
      "PRReviewDetails.status d = PRData.status data"
      "PRReviewDetails.url d = PRData.url data"
    and lists: "PRReviewDetails.reviewers d = rs" "PRReviewDetails.threads d = ts"
    and desc: "PRReviewDetails.description d = orDefault (PRData.description data) []"
    and merge: "PRReviewDetails.mergeStatus d = orDefault (PRData.mergeStatus data) ''unknown''"
    and dn: "Creator.displayName (PRReviewDetails.createdBy d) =
        orDefault (Option.bind (PRData.createdBy data) CreatedByData.displayName) ''Unknown''"
    and un: "Creator.uniqueName (PRReviewDetails.createdBy d) =
        orDefault (orElse (Option.bind (PRData.createdBy data) CreatedByData.uniqueName)
                          (Option.bind (PRData.createdBy data) CreatedByData.email))
          ''unknown@example.com''"
    and rn: "NamedUrl.name (PRReviewDetails.repository d) =
        orDefault (Option.bind (PRData.repository data) RepositoryData.name) (PRReviewParams.repository ps)"
    and ru: "NamedUrl.url (PRReviewDetails.repository d) =
        orDefault (Option.bind (PRData.repository data) RepositoryData.url) []"
    and pn: "NamedUrl.name (PRReviewDetails.project d) =
        orDefault (Option.bind (Option.bind (PRData.repository data) RepositoryData.project) ProjectData.name)
          (PRReviewParams.project ps)"
    and pu: "NamedUrl.url (PRReviewDetails.project d) =
        orDefault (Option.bind (Option.bind (PRData.repository data) RepositoryData.project) ProjectData.url) []"
    by (simp_all add: d_def R)
  have c1: "PRReviewDetails.description d = (case PRData.description data of None \<Rightarrow> [] | Some s \<Rightarrow> s)"
    unfolding desc by (simp add: orDefault_def split: option.splits)
  have c2: "Creator.displayName (PRReviewDetails.createdBy d) =
          (case PRData.createdBy data of
             None \<Rightarrow> ''Unknown''
           | Some cb \<Rightarrow>
               if missing (CreatedByData.displayName cb) then ''Unknown''
               else the (CreatedByData.displayName cb))"
    unfolding dn by (cases "PRData.createdBy data") (simp_all add: orDefault_the missing_def)
  have c3: "Creator.uniqueName (PRReviewDetails.createdBy d) =
          (case PRData.createdBy data of
             None \<Rightarrow> ''unknown@example.com''
           | Some cb \<Rightarrow>
               if \<not> missing (CreatedByData.uniqueName cb) then the (CreatedByData.uniqueName cb)
               else if \<not> missing (CreatedByData.email cb) then the (CreatedByData.email cb)
               else ''unknown@example.com'')"
    unfolding un
    by (cases "PRData.createdBy data") (simp_all add: orDefault_the orElse_missing, simp_all add: missing_def)
  have c4: "PRReviewDetails.mergeStatus d =
          (if missing (PRData.mergeStatus data) then ''unknown'' else the (PRData.mergeStatus data))"
    unfolding merge by (rule orDefault_the)
  have c5: "list_all2 sameReviewer (orEmpty (PRData.reviewers data)) (PRReviewDetails.reviewers d)"
    using rs by (simp add: lists mapped_reviewers)
  have c6: "list_all2 sameThread (orEmpty (PRData.threads data)) (PRReviewDetails.threads d)"
    using ts by (simp add: lists mapped_threads)
  have c7: "NamedUrl.name (PRReviewDetails.repository d) =
          (case PRData.repository data of
             None \<Rightarrow> PRReviewParams.repository ps
           | Some r \<Rightarrow>
               if missing (RepositoryData.name r) then PRReviewParams.repository ps
               else the (RepositoryData.name r))"
    unfolding rn by (cases "PRData.repository data") (simp_all add: orDefault_the missing_def)
  have c8: "NamedUrl.url (PRReviewDetails.repository d) =
          (case PRData.repository data of
             None \<Rightarrow> []
           | Some r \<Rightarrow> (case RepositoryData.url r of None \<Rightarrow> [] | Some s \<Rightarrow> s))"
    unfolding ru by (cases "PRData.repository data") (simp_all add: orDefault_def split: option.splits)
  have c9: "NamedUrl.name (PRReviewDetails.project d) =
          (case Option.bind (PRData.repository data) RepositoryData.project of
             None \<Rightarrow> PRReviewParams.project ps
           | Some p \<Rightarrow>
               if missing (ProjectData.name p) then PRReviewParams.project ps
               else the (ProjectData.name p))"
    unfolding pn
    by (cases "Option.bind (PRData.repository data) RepositoryData.project")
       (simp_all add: orDefault_the missing_def)
  have c10: "NamedUrl.url (PRReviewDetails.project d) =
          (case Option.bind (PRData.repository data) RepositoryData.project of
             None \<Rightarrow> []
           | Some p \<Rightarrow> (case ProjectData.url p of None \<Rightarrow> [] | Some s \<Rightarrow> s))"
    unfolding pu
    by (cases "Option.bind (PRData.repository data) RepositoryData.project")
       (simp_all add: orDefault_def split: option.splits)
  show "\<exists>d. getPRReviewDetails fetchWithAuth ps token = Inr d \<and>
        PRReviewDetails.pullRequestId d = PRData.pullRequestId data \<and>
        PRReviewDetails.title d = PRData.title data \<and>
        PRReviewDetails.creationDate d = PRData.creationDate data \<and>
        PRReviewDetails.sourceRefName d = PRData.sourceRefName data \<and>
        PRReviewDetails.targetRefName d = PRData.targetRefName data \<and>
        PRReviewDetails.status d = PRData.status data \<and>
        PRReviewDetails.url d = PRData.url data \<and>
        PRReviewDetails.description d =
          (case PRData.description data of None \<Rightarrow> [] | Some s \<Rightarrow> s) \<and>
        Creator.displayName (PRReviewDetails.createdBy d) =
          (case PRData.createdBy data of
             None \<Rightarrow> ''Unknown''
           | Some cb \<Rightarrow>
               if missing (CreatedByData.displayName cb) then ''Unknown''
               else the (CreatedByData.displayName cb)) \<and>
        Creator.uniqueName (PRReviewDetails.createdBy d) =
          (case PRData.createdBy data of
             None \<Rightarrow> ''unknown@example.com''
           | Some cb \<Rightarrow>
               if \<not> missing (CreatedByData.uniqueName cb) then the (CreatedByData.uniqueName cb)
               else if \<not> missing (CreatedByData.email cb) then the (CreatedByData.email cb)
               else ''unknown@example.com'') \<and>
        PRReviewDetails.mergeStatus d =
          (if missing (PRData.mergeStatus data) then ''unknown'' else the (PRData.mergeStatus data)) \<and>
        list_all2 sameReviewer (orEmpty (PRData.reviewers data)) (PRReviewDetails.reviewers d) \<and>
        list_all2 sameThread (orEmpty (PRData.threads data)) (PRReviewDetails.threads d) \<and>
        NamedUrl.name (PRReviewDetails.repository d) =
          (case PRData.repository data of
             None \<Rightarrow> PRReviewParams.repository ps
           | Some r \<Rightarrow>
               if missing (RepositoryData.name r) then PRReviewParams.repository ps
               else the (RepositoryData.name r)) \<and>
        NamedUrl.url (PRReviewDetails.repository d) =
          (case PRData.repository data of
             None \<Rightarrow> []
           | Some r \<Rightarrow> (case RepositoryData.url r of None \<Rightarrow> [] | Some s \<Rightarrow> s)) \<and>
        NamedUrl.name (PRReviewDetails.project d) =
          (case Option.bind (PRData.repository data) RepositoryData.project of
             None \<Rightarrow> PRReviewParams.project ps
           | Some p \<Rightarrow>
               if missing (ProjectData.name p) then PRReviewParams.project ps
               else the (ProjectData.name p)) \<and>
        NamedUrl.url (PRReviewDetails.project d) =
          (case Option.bind (PRData.repository data) RepositoryData.project of
             None \<Rightarrow> []
           | Some p \<Rightarrow> (case ProjectData.url p of None \<Rightarrow> [] | Some s \<Rightarrow> s))"
    by (intro exI[of _ d] conjI) (fact d plain c1 c2 c3 c4 c5 c6 c7 c8 c9 c10)+
qed

theorem review_details_defaults_witness:
  "sampleFetch sampleReviewParams ''token'' = Inr sampleData \<and> allNamed sampleData \<and>
   (\<exists>d. getPRReviewDetails sampleFetch sampleReviewParams ''token'' = Inr d \<and>
      PRReviewDetails.description d = [] \<and>
      Creator.displayName (PRReviewDetails.createdBy d) = ''Ann'' \<and>
      Creator.uniqueName (PRReviewDetails.createdBy d) = ''ann@corp.example'' \<and>
      PRReviewDetails.mergeStatus d = ''unknown'' \<and>
      NamedUrl.name (PRReviewDetails.repository d) = ''repo'') \<and>
   namelessFetch sampleReviewParams ''token'' = Inr namelessData \<and> \<not> allNamed namelessData \<and>
   getPRReviewDetails namelessFetch sampleReviewParams ''token'' = Inl typeError"
proof -
  have f1: "sampleFetch sampleReviewParams ''token'' = Inr sampleData"
    by (simp add: sampleFetch_def)
  have n1: "allNamed sampleData"
    by (simp add: allNamed_def sampleData_def orEmpty_def)
  have f2: "namelessFetch sampleReviewParams ''token'' = Inr namelessData"
    by (simp add: namelessFetch_def)
  have n2: "\<not> allNamed namelessData"
    by (simp add: allNamed_def namelessData_def orEmpty_def)
  have v: "PRData.description sampleData = None"
    "PRData.createdBy sampleData =
       Some \<lparr>CreatedByData.displayName = Some ''Ann'', CreatedByData.uniqueName = None,
             CreatedByData.email = Some ''ann@corp.example''\<rparr>"
    "PRData.mergeStatus sampleData = Some []"
    "PRData.repository sampleData = None"
    "PRReviewParams.repository sampleReviewParams = ''repo''"
    by (simp_all add: sampleData_def sampleReviewParams_def)
  from review_details_defaults[of sampleFetch sampleReviewParams "''token''" sampleData, OF f1] n1
  have a: "\<exists>d. getPRReviewDetails sampleFetch sampleReviewParams ''token'' = Inr d \<and>
      PRReviewDetails.description d = [] \<and>
      Creator.displayName (PRReviewDetails.createdBy d) = ''Ann'' \<and>
      Creator.uniqueName (PRReviewDetails.createdBy d) = ''ann@corp.example'' \<and>
      PRReviewDetails.mergeStatus d = ''unknown'' \<and>
      NamedUrl.name (PRReviewDetails.repository d) = ''repo''"
    unfolding v by (auto simp add: missing_def)
  from review_details_defaults[of namelessFetch sampleReviewParams "''token''" namelessData, OF f2] n2
  have b: "getPRReviewDetails namelessFetch sampleReviewParams ''token'' = Inl typeError"
    by blast
  from f1 n1 a f2 n2 b show ?thesis by blast
qed


section \<open>Properties of the URL parsers\<close>

lemma partAt_Cons_simps [simp]:
  "partAt [] i = None"
  "partAt (x # xs) 0 = Some x"
  "partAt (x # xs) (Suc i) = partAt xs i"
  by (simp_all add: partAt_def)

lemma partAt_numeral [simp]: "partAt (x # xs) (numeral n) = partAt xs (pred_numeral n)"
  by (simp add: partAt_def numeral_eq_Suc)

lemma partAt_eq_Some_0: "partAt ps 0 = Some x \<longleftrightarrow> (\<exists>rest. ps = x # rest)"
  by (cases ps) auto

lemma partAt_eq_Some_1: "partAt ps (Suc 0) = Some x \<longleftrightarrow> (\<exists>a rest. ps = a # x # rest)"
  by (cases ps) (auto simp: partAt_eq_Some_0)

lemma six_parts:
  "6 \<le> length ps \<Longrightarrow> \<exists>p0 p1 p2 p3 p4 p5 rest. ps = p0 # p1 # p2 # p3 # p4 # p5 # rest"
  by (auto simp: numeral_eq_Suc Suc_le_length_iff)

text \<open>
  C5. When the address parses and the non-empty parts of its path are
  \<open>org, project, _git, repo, pullrequest, id\<close> followed by anything, the service's
  \<open>parsePRUrl\<close> returns these four values; when the address does not parse, or the path
  has neither this shape nor the host has \<open>visualstudio\<close> as second label with \<open>_git\<close>
  as second path part, it returns \<open>null\<close>; and it returns, without throwing, on every
  input.
\<close>

theorem parsePRUrl_shapes:
  "(\<forall>(prUrl::URL) org proj repo ident rest.
      parser address = Inr prUrl \<and>
      filter (\<lambda>p. p \<noteq> []) (splitOn (CHR ''/'') (pathname prUrl)) =
        org # proj # ''_git'' # repo # ''pullrequest'' # ident # rest \<longrightarrow>
      parsePRUrl parser address =
        Inr (Some \<lparr>organization = Some org, project = Some proj,
                   repository = Some repo, pullRequestId = Some ident\<rparr>)) \<and>
   (\<forall>e. parser address = Inl e \<longrightarrow> parsePRUrl parser address = Inr None) \<and>
   (\<forall>prUrl::URL.
      parser address = Inr prUrl \<and>
      \<not> (\<exists>org proj repo ident rest.
           filter (\<lambda>p. p \<noteq> []) (splitOn (CHR ''/'') (pathname prUrl)) =
             org # proj # ''_git'' # repo # ''pullrequest'' # ident # rest) \<and>
      \<not> ((\<exists>label rest. splitOn (CHR ''.'') (hostname prUrl) = label # ''visualstudio'' # rest) \<and>
         (\<exists>part rest. filter (\<lambda>p. p \<noteq> []) (splitOn (CHR ''/'') (pathname prUrl)) =
             part # ''_git'' # rest)) \<longrightarrow>
      parsePRUrl parser address = Inr None) \<and>
   (\<exists>result. parsePRUrl parser address = Inr result)"
proof (intro conjI allI impI)
  fix prUrl :: URL and org proj repo ident rest
  assume "parser address = Inr prUrl \<and>
      filter (\<lambda>p. p \<noteq> []) (splitOn (CHR ''/'') (pathname prUrl)) =
        org # proj # ''_git'' # repo # ''pullrequest'' # ident # rest"
  then show "parsePRUrl parser address =
        Inr (Some \<lparr>organization = Some org, project = Some proj,
                   repository = Some repo, pullRequestId = Some ident\<rparr>)"
    by (simp add: parsePRUrl_def parsePRUrl_try_def)
next
  fix e assume "parser address = Inl e"
  then show "parsePRUrl parser address = Inr None"
    by (simp add: parsePRUrl_def parsePRUrl_try_def)
next
  fix prUrl :: URL
  let ?parts = "filter (\<lambda>p. p \<noteq> []) (splitOn (CHR ''/'') (pathname prUrl))"
  let ?host = "splitOn (CHR ''.'') (hostname prUrl)"
  assume a: "parser address = Inr prUrl \<and>
      \<not> (\<exists>org proj repo ident rest. ?parts = org # proj # ''_git'' # repo # ''pullrequest'' # ident # rest) \<and>
      \<not> ((\<exists>label rest. ?host = label # ''visualstudio'' # rest) \<and>
         (\<exists>part rest. ?parts = part # ''_git'' # rest))"
  have dev: "\<not> (length ?parts \<ge> 6 \<and> partAt ?parts 2 = Some ''_git'' \<and> partAt ?parts 4 = Some ''pullrequest'')"
  proof
    assume b: "length ?parts \<ge> 6 \<and> partAt ?parts 2 = Some ''_git'' \<and> partAt ?parts 4 = Some ''pullrequest''"
    then obtain p0 p1 p2 p3 p4 p5 rest where "?parts = p0 # p1 # p2 # p3 # p4 # p5 # rest"
      using six_parts[of ?parts] by blast
    with a b show False by simp
  qed
  have vs: "\<not> (partAt ?host 1 = Some ''visualstudio'' \<and> partAt ?parts 1 = Some ''_git'')"
    using a by (auto simp: partAt_eq_Some_1)
  from a dev vs show "parsePRUrl parser address = Inr None"
    by (simp add: parsePRUrl_def parsePRUrl_try_def Let_def)
next
  show "\<exists>result. parsePRUrl parser address = Inr result"
    by (simp add: parsePRUrl_def split: sum.split)
qed

theorem parsePRUrl_shapes_witness:
  "parsePRUrl sampleURL ''https://dev.azure.com/org/proj/_git/repo/pullrequest/42'' =
     Inr (Some \<lparr>organization = Some ''org'', project = Some ''proj'',
                repository = Some ''repo'', pullRequestId = Some ''42''\<rparr>) \<and>
   parsePRUrl sampleURL ''not a address'' = Inr None \<and>
   parsePRUrl sampleURL ''https://example.com/about'' = Inr None"
proof -
  have a: "sampleURL ''https://dev.azure.com/org/proj/_git/repo/pullrequest/42'' =
      Inr \<lparr>hostname = ''dev.azure.com'', pathname = ''/org/proj/_git/repo/pullrequest/42''\<rparr> \<and>
      filter (\<lambda>p. p \<noteq> []) (splitOn (CHR ''/'')
        (pathname \<lparr>hostname = ''dev.azure.com'', pathname = ''/org/proj/_git/repo/pullrequest/42''\<rparr>)) =
      ''org'' # ''proj'' # ''_git'' # ''repo'' # ''pullrequest'' # ''42'' # []"
    by (simp add: sampleURL_def)
  have b: "sampleURL ''not a address'' = Inl (Error ''Invalid URL'')"
    by (simp add: sampleURL_def)
  have c: "sampleURL ''https://example.com/about'' =
      Inr \<lparr>hostname = ''example.com'', pathname = ''/about''\<rparr>"
    by (simp add: sampleURL_def)
  have c': "filter (\<lambda>p. p \<noteq> []) (splitOn (CHR ''/'')
        (pathname \<lparr>hostname = ''example.com'', pathname = ''/about''\<rparr>)) = [''about'']"
    by simp
  have 1: "parsePRUrl sampleURL ''https://dev.azure.com/org/proj/_git/repo/pullrequest/42'' =
     Inr (Some \<lparr>organization = Some ''org'', project = Some ''proj'',
                repository = Some ''repo'', pullRequestId = Some ''42''\<rparr>)"
    using parsePRUrl_shapes[of sampleURL "''https://dev.azure.com/org/proj/_git/repo/pullrequest/42''"] a
    by blast
  have 2: "parsePRUrl sampleURL ''not a address'' = Inr None"
    using parsePRUrl_shapes[of sampleURL "''not a address''"] b by blast
  have 3: "parsePRUrl sampleURL ''https://example.com/about'' = Inr None"
    using parsePRUrl_shapes[of sampleURL "''https://example.com/about''"] c c' by auto
  from 1 2 3 show ?thesis by blast
qed

text \<open>
  C10. The \<open>parsePRUrl\<close> of the pull-request creation service and the \<open>parsePRUrl\<close> of
  the Azure DevOps service return the same result on every input string, whatever the
  platform's URL parser does with it.
\<close>

theorem parsePRUrl_services_agree:
  "prCreation_parsePRUrl parser address = parsePRUrl parser address"
  by (simp add: prCreation_parsePRUrl_def prCreation_parsePRUrl_try_def
      parsePRUrl_def parsePRUrl_try_def)


section \<open>Properties of the batch fetch\<close>

lemma marker_facts:
  "NUL \<notin> set binaryMarker" "NUL \<notin> set errorMarker" "NUL \<notin> set truncatedSuffix"
  by (simp_all add: NUL_def LF_def binaryMarker_def errorMarker_def truncatedSuffix_def)

lemma marker_lengths:
  "length binaryMarker \<le> 20000" "length errorMarker \<le> 20000" "length truncatedSuffix = 16"
  by (simp_all add: binaryMarker_def errorMarker_def truncatedSuffix_def)

lemma cut_facts:
  assumes "NUL \<notin> set fetched"
  shows "NUL \<notin> set (cut fetched)" and "length (cut fetched) \<le> 20000 + length truncatedSuffix"
proof -
  have "NUL \<notin> set (take 20000 fetched)"
    using assms by (auto dest: in_set_takeD)
  then show "NUL \<notin> set (cut fetched)"
    using assms marker_facts(3) by (simp add: cut_def)
  show "length (cut fetched) \<le> 20000 + length truncatedSuffix"
    by (simp add: cut_def)
qed

lemma fetchChange_content:
  assumes "fetchChange lower exchange ps token commit change = Some f"
  shows "\<exists>p. changePath change = Some p \<and> FileDiff.path f = p \<and>
     ((FileDiff.content f = Some [] \<and>
         (lower (orDefault (Change.changeType change) ''edit'') \<in> set skipTypes \<or>
          exchange ps token p commit = NotOk)) \<or>
      (FileDiff.content f = Some binaryMarker \<and>
         (\<exists>fetched. exchange ps token p commit = Body fetched \<and> NUL \<in> set fetched)) \<or>
      (FileDiff.content f = Some errorMarker \<and> exchange ps token p commit \<in> {Rejected, BodyRejected}) \<or>
      (\<exists>fetched. exchange ps token p commit = Body fetched \<and> NUL \<notin> set fetched \<and>
         FileDiff.content f = Some (cut fetched)))"
proof -
  from assms obtain p where p: "changePath change = Some p" "p \<noteq> []"
    by (auto simp: fetchChange_def split: option.splits if_splits)
  define ct where "ct = orDefault (Change.changeType change) ''edit''"
  define c where "c =
     (if lower ct \<notin> set skipTypes then
        (case exchange ps token p commit of
           Rejected \<Rightarrow> errorMarker
         | NotOk \<Rightarrow> []
         | BodyRejected \<Rightarrow> errorMarker
         | Body fetched \<Rightarrow> if NUL \<in> set fetched then binaryMarker else cut fetched)
      else [])"
  have f: "f = \<lparr>path = p, changeType = ct, FileDiff.content = Some c,
                 originalPath = orElse (sourceServerItem change) (Change.originalPath change)\<rparr>"
    using assms p
    by (auto simp add: fetchChange_def Let_def ct_def c_def cut_def split: HttpOutcome.splits)
  have fp: "FileDiff.path f = p" and fc: "FileDiff.content f = Some c"
    by (simp_all add: f)
  have "(c = [] \<and> (lower ct \<in> set skipTypes \<or> exchange ps token p commit = NotOk)) \<or>
      (c = binaryMarker \<and> (\<exists>fetched. exchange ps token p commit = Body fetched \<and> NUL \<in> set fetched)) \<or>
      (c = errorMarker \<and> exchange ps token p commit \<in> {Rejected, BodyRejected}) \<or>
      (\<exists>fetched. exchange ps token p commit = Body fetched \<and> NUL \<notin> set fetched \<and> c = cut fetched)"
    unfolding c_def by (cases "exchange ps token p commit") auto
  with p(1) fp fc show ?thesis
    unfolding ct_def by simp
qed

text \<open>
  C8. Every FileDiff returned by \<open>fetchBatchContents\<close> comes from a change of the batch
  with that path, and its content is the empty string (change type delete or none, or an
  answer that is not ok), the binary marker (the fetched text holds a NUL), the error marker
  (the request threw), or the fetched text without NUL, cut to 20000 characters plus the
  suffix when it is longer. So no returned content holds a NUL, and none is longer than
  20000 characters plus the suffix.
\<close>

theorem fetchBatchContents_content:
  "\<forall>f \<in> set (fetchBatchContents lower exchange ps token batch commit).
     (\<exists>change \<in> set batch. changePath change = Some (FileDiff.path f) \<and>
        ((FileDiff.content f = Some [] \<and>
            (lower (orDefault (Change.changeType change) ''edit'') \<in> {''delete'', ''none''} \<or>
             exchange ps token (FileDiff.path f) commit = NotOk)) \<or>
         (FileDiff.content f = Some ''[Binary File - Skipping analysis]'' \<and>
            (\<exists>fetched. exchange ps token (FileDiff.path f) commit = Body fetched \<and> NUL \<in> set fetched)) \<or>
         (FileDiff.content f = Some ''[Error fetching content]'' \<and>
            exchange ps token (FileDiff.path f) commit \<in> {Rejected, BodyRejected}) \<or>
         (\<exists>fetched. exchange ps token (FileDiff.path f) commit = Body fetched \<and> NUL \<notin> set fetched \<and>
            FileDiff.content f = Some (if length fetched > 20000
                              then take 20000 fetched @ LF # ''... [TRUNCATED]'' else fetched)))) \<and>
     (\<exists>c. FileDiff.content f = Some c \<and> NUL \<notin> set c \<and> length c \<le> 20000 + length (LF # ''... [TRUNCATED]''))"
proof
  fix f
  assume "f \<in> set (fetchBatchContents lower exchange ps token batch commit)"
  then obtain change where ch: "change \<in> set batch"
    and fc: "fetchChange lower exchange ps token commit change = Some f"
    by (auto simp: fetchBatchContents_def List.map_filter_def)
  from fetchChange_content[OF fc] obtain p where p: "changePath change = Some p" "FileDiff.path f = p"
    and cases: "(FileDiff.content f = Some [] \<and>
         (lower (orDefault (Change.changeType change) ''edit'') \<in> set skipTypes \<or>
          exchange ps token p commit = NotOk)) \<or>
      (FileDiff.content f = Some binaryMarker \<and>
         (\<exists>fetched. exchange ps token p commit = Body fetched \<and> NUL \<in> set fetched)) \<or>
      (FileDiff.content f = Some errorMarker \<and> exchange ps token p commit \<in> {Rejected, BodyRejected}) \<or>
      (\<exists>fetched. exchange ps token p commit = Body fetched \<and> NUL \<notin> set fetched \<and>
         FileDiff.content f = Some (cut fetched))"
    by blast
  have bound: "\<exists>c. FileDiff.content f = Some c \<and> NUL \<notin> set c \<and> length c \<le> 20000 + length truncatedSuffix"
    using cases marker_facts marker_lengths cut_facts by fastforce
  have shape: "\<exists>change \<in> set batch. changePath change = Some (FileDiff.path f) \<and>
        ((FileDiff.content f = Some [] \<and>
            (lower (orDefault (Change.changeType change) ''edit'') \<in> set skipTypes \<or>
             exchange ps token (FileDiff.path f) commit = NotOk)) \<or>
         (FileDiff.content f = Some binaryMarker \<and>
            (\<exists>fetched. exchange ps token (FileDiff.path f) commit = Body fetched \<and> NUL \<in> set fetched)) \<or>
         (FileDiff.content f = Some errorMarker \<and>
            exchange ps token (FileDiff.path f) commit \<in> {Rejected, BodyRejected}) \<or>
         (\<exists>fetched. exchange ps token (FileDiff.path f) commit = Body fetched \<and> NUL \<notin> set fetched \<and>
            FileDiff.content f = Some (cut fetched)))"
    using ch p cases by blast
  have unfold: "set skipTypes = {''delete'', ''none''}"
    "binaryMarker = ''[Binary File - Skipping analysis]''"
    "errorMarker = ''[Error fetching content]''"
    "truncatedSuffix = LF # ''... [TRUNCATED]''"
    "\<And>fetched. cut fetched = (if length fetched > 20000
                              then take 20000 fetched @ LF # ''... [TRUNCATED]'' else fetched)"
    by (simp_all only: skipTypes_def binaryMarker_def errorMarker_def truncatedSuffix_def cut_def
        list.set)
  from shape bound show "(\<exists>change \<in> set batch. changePath change = Some (FileDiff.path f) \<and>
        ((FileDiff.content f = Some [] \<and>
            (lower (orDefault (Change.changeType change) ''edit'') \<in> {''delete'', ''none''} \<or>
             exchange ps token (FileDiff.path f) commit = NotOk)) \<or>
         (FileDiff.content f = Some ''[Binary File - Skipping analysis]'' \<and>
            (\<exists>fetched. exchange ps token (FileDiff.path f) commit = Body fetched \<and> NUL \<in> set fetched)) \<or>
         (FileDiff.content f = Some ''[Error fetching content]'' \<and>
            exchange ps token (FileDiff.path f) commit \<in> {Rejected, BodyRejected}) \<or>
         (\<exists>fetched. exchange ps token (FileDiff.path f) commit = Body fetched \<and> NUL \<notin> set fetched \<and>
            FileDiff.content f = Some (if length fetched > 20000
                              then take 20000 fetched @ LF # ''... [TRUNCATED]'' else fetched)))) \<and>
     (\<exists>c. FileDiff.content f = Some c \<and> NUL \<notin> set c \<and> length c \<le> 20000 + length (LF # ''... [TRUNCATED]''))"
    unfolding unfold by (rule conjI)
qed

theorem fetchBatchContents_content_witness:
  "\<lparr>path = ''/img/logo.png'', changeType = ''edit'',
     FileDiff.content = Some ''[Binary File - Skipping analysis]'', originalPath = None\<rparr>
     \<in> set (fetchBatchContents sampleLower sampleItems sampleParams ''pat'' sampleBatch None) \<and>
   (\<exists>c. FileDiff.content \<lparr>path = ''/img/logo.png'', changeType = ''edit'',
            FileDiff.content = Some ''[Binary File - Skipping analysis]'', originalPath = None\<rparr> = Some c \<and>
        NUL \<notin> set c \<and> length c \<le> 20000 + length (LF # ''... [TRUNCATED]''))"
proof -
  have mem: "\<lparr>path = ''/img/logo.png'', changeType = ''edit'',
     FileDiff.content = Some ''[Binary File - Skipping analysis]'', originalPath = None\<rparr>
     \<in> set (fetchBatchContents sampleLower sampleItems sampleParams ''pat'' sampleBatch None)"
    by code_simp
  from fetchBatchContents_content[rule_format, OF mem] mem show ?thesis
    by blast
qed


section \<open>Properties of the GLM \<open>analyzeBatch\<close>\<close>

lemma failedAnalysis_comment:
  "\<exists>before after.
     comment (hd (codeReviewComments (failedAnalysis caught))) = before @ error.message caught @ after"
proof (cases "error.message caught = []")
  case True
  have "comment (hd (codeReviewComments (failedAnalysis caught))) =
      comment (hd (codeReviewComments (failedAnalysis caught))) @ [] @ []"
    by simp
  with True show ?thesis by metis
next
  case False
  then have "comment (hd (codeReviewComments (failedAnalysis caught))) =
      ''Analysis failed: '' @ error.message caught @ []"
    by (simp add: failedAnalysis_def)
  then show ?thesis by blast
qed

text \<open>
  C6. With an API key present, whenever the upstream call throws, or the content is empty,
  or parsing the content throws, or reading the parsed value throws, the GLM
  \<open>analyzeBatch\<close> returns (it does not throw) an analysis whose summary is
  \<open>Analysis failed - please try again\<close>, whose overall health and risk level are
  \<open>Critical\<close>, and whose review comments are exactly one entry, of high severity, whose
  text contains the message of the error.
\<close>

theorem analyzeBatch_fallback:
  assumes key: "\<exists>k. GLM_API_KEY platform = Some k \<and> k \<noteq> []"
    and thrown:
      "create platform info files instructions context = Inl caught \<or>
       (\<exists>response. create platform info files instructions context = Inr response \<and>
          (firstContent response = None \<or> firstContent response = Some []) \<and>
          caught = Error ''Empty response from GLM'') \<or>
       (\<exists>response s. create platform info files instructions context = Inr response \<and>
          firstContent response = Some s \<and> s \<noteq> [] \<and> parseContent platform s = Inl caught) \<or>
       (\<exists>response s parsed. create platform info files instructions context = Inr response \<and>
          firstContent response = Some s \<and> s \<noteq> [] \<and> parseContent platform s = Inr parsed \<and>
          reshape platform parsed = Inl caught)"
  shows "\<exists>result entry before after.
     analyzeBatch platform info files idx nBatches instructions context = Inr result \<and>
     summary result = ''Analysis failed - please try again'' \<and>
     overallHealth result = OverallHealth.Critical \<and>
     riskLevel (stats result) = RiskLevel.Critical \<and>
     codeReviewComments result = [entry] \<and>
     severity entry = high \<and>
     comment entry = before @ error.message caught @ after"
proof -
  have t: "analyzeBatch_try platform info files idx nBatches instructions context = Inl caught"
    using thrown by (auto simp: analyzeBatch_try_def)
  have r: "analyzeBatch platform info files idx nBatches instructions context =
      Inr (failedAnalysis caught)"
    using key t by (auto simp: analyzeBatch_def missing_def)
  obtain before after where
    c: "comment (hd (codeReviewComments (failedAnalysis caught))) = before @ error.message caught @ after"
    using failedAnalysis_comment by blast
  have one: "codeReviewComments (failedAnalysis caught) = [hd (codeReviewComments (failedAnalysis caught))]"
    by (simp add: failedAnalysis_def)
  have sev: "severity (hd (codeReviewComments (failedAnalysis caught))) = high"
    by (simp add: failedAnalysis_def)
  have rest: "summary (failedAnalysis caught) = ''Analysis failed - please try again''"
    "overallHealth (failedAnalysis caught) = OverallHealth.Critical"
    "riskLevel (stats (failedAnalysis caught)) = RiskLevel.Critical"
    by (simp_all add: failedAnalysis_def)
  from r c one sev rest show ?thesis by blast
qed

theorem analyzeBatch_fallback_witness:
  "(\<exists>k. GLM_API_KEY downPlatform = Some k \<and> k \<noteq> []) \<and>
   create downPlatform samplePRInfo [] [] [] = Inl (Error ''429 rate limited'') \<and>
   (\<exists>result entry before after.
      analyzeBatch downPlatform samplePRInfo [] 0 1 [] [] = Inr result \<and>
      summary result = ''Analysis failed - please try again'' \<and>
      overallHealth result = OverallHealth.Critical \<and>
      riskLevel (stats result) = RiskLevel.Critical \<and>
      codeReviewComments result = [entry] \<and>
      severity entry = high \<and>
      comment entry = before @ ''429 rate limited'' @ after) \<and>
   parseContent garbledPlatform ''sorry, no'' = Inl (Error ''Failed to parse GLM response as JSON'') \<and>
   (\<exists>result entry before after.
      analyzeBatch garbledPlatform samplePRInfo [] 0 1 [] [] = Inr result \<and>
      codeReviewComments result = [entry] \<and>
      comment entry = before @ ''Failed to parse GLM response as JSON'' @ after)"
proof -
  have key: "\<exists>k. GLM_API_KEY downPlatform = Some k \<and> k \<noteq> []"
    by (simp add: downPlatform_def)
  have down: "create downPlatform samplePRInfo [] [] [] = Inl (Error ''429 rate limited'')"
    by (simp add: downPlatform_def)
  have key': "\<exists>k. GLM_API_KEY garbledPlatform = Some k \<and> k \<noteq> []"
    by (simp add: garbledPlatform_def)
  have parse: "parseContent garbledPlatform ''sorry, no'' = Inl (Error ''Failed to parse GLM response as JSON'')"
    by (simp add: garbledPlatform_def parseContent_def jsonMatch_def)
  have garbled: "\<exists>response s. create garbledPlatform samplePRInfo [] [] [] = Inr response \<and>
          firstContent response = Some s \<and> s \<noteq> [] \<and>
          parseContent garbledPlatform s = Inl (Error ''Failed to parse GLM response as JSON'')"
    using parse by (simp add: garbledPlatform_def firstContent_def)
  have a: "\<exists>result entry before after.
      analyzeBatch downPlatform samplePRInfo [] 0 1 [] [] = Inr result \<and>
      summary result = ''Analysis failed - please try again'' \<and>
      overallHealth result = OverallHealth.Critical \<and>
      riskLevel (stats result) = RiskLevel.Critical \<and>
      codeReviewComments result = [entry] \<and>
      severity entry = high \<and>
      comment entry = before @ ''429 rate limited'' @ after"
    using analyzeBatch_fallback[OF key, of samplePRInfo "[]" "[]" "[]" "Error ''429 rate limited''" 0 1] down
    by simp
  have b: "\<exists>result entry before after.
      analyzeBatch garbledPlatform samplePRInfo [] 0 1 [] [] = Inr result \<and>
      codeReviewComments result = [entry] \<and>
      comment entry = before @ ''Failed to parse GLM response as JSON'' @ after"
    using analyzeBatch_fallback[OF key', of samplePRInfo "[]" "[]" "[]"
        "Error ''Failed to parse GLM response as JSON''" 0 1] garbled
    by (simp del: append_eq_append_conv2) blast
  from key down a parse b show ?thesis by blast
qed


section \<open>Properties of the analysis page\<close>

lemma orElse_nonempty: "a \<noteq> Some [] \<Longrightarrow> b \<noteq> Some [] \<Longrightarrow> orElse a b \<noteq> Some []"
  by (auto simp: orElse_def split: option.splits if_splits)

lemma orElse_nonempty_right: "b \<noteq> Some [] \<Longrightarrow> orElse a b \<noteq> Some []"
  by (auto simp: orElse_def split: option.splits if_splits)

lemma changePath_nonempty: "changePath change \<noteq> Some []"
  unfolding changePath_def
  by (rule orElse_nonempty_right) (auto split: option.splits Item.splits)

lemma fetchChange_None: "fetchChange lower exchange ps token commit change = None \<longleftrightarrow> changePath change = None"
  using changePath_nonempty[of change]
  by (auto simp: fetchChange_def Let_def split: option.splits)

lemma fetchChange_path:
  "fetchChange lower exchange ps token commit change = Some f \<Longrightarrow> changePath change = Some (FileDiff.path f)"
  by (auto simp: fetchChange_def Let_def split: option.splits if_splits)

lemma fetched_paths:
  "map FileDiff.path (fetchBatchContents lower exchange ps token batch commit) =
   List.map_filter changePath batch"
proof (induction batch)
  case Nil
  show ?case by (simp add: fetchBatchContents_def List.map_filter_simps)
next
  case (Cons change batch)
  show ?case
  proof (cases "fetchChange lower exchange ps token commit change")
    case None
    with Cons fetchChange_None[of lower exchange ps token commit change] show ?thesis
      by (simp add: fetchBatchContents_def List.map_filter_simps)
  next
    case (Some f)
    with Cons fetchChange_path[OF Some] show ?thesis
      by (simp add: fetchBatchContents_def List.map_filter_simps)
  qed
qed

lemma slice_first: "slice 0 10 xs = take (min 10 (length xs)) xs"
  by (simp add: slice_def min_def)

lemma length_slice_first: "length (slice 0 10 xs) = min 10 (length xs)"
  by (simp add: slice_def min_def)

lemma nextBatch_take_drop:
  "nextBatch st = take 10 (drop (processedCount st) (allChanges st))"
  by (simp add: nextBatch_def slice_def)

lemma startAnalysis_reaches_call:
  assumes "url inp \<noteq> []" "pat inp \<noteq> []"
    and "parsePRUrl (newURL w) (url inp) = Inr (Some ps)"
    and "getPRDetails w ps (pat inp) = Inr info"
    and "toLowerCase w (status info) \<noteq> ''abandoned''"
    and "getPRMetadata w ps (pat inp) = Inr (commit, found)"
    and "found \<noteq> []"
  shows "snd (startAnalysis w inp st) = [firstCall w inp ps info commit found]"
    and "analyzeFunction w (firstCall w inp ps info commit found) = Inr a \<Longrightarrow>
         processedCount (fst (startAnalysis w inp st)) = length (slice 0 10 found)"
  using assms
  by (auto simp: startAnalysis_def startAnalysis_try_def Let_def split: sum.splits)

lemma loadNextBatch_reaches_call:
  assumes "AppState.prInfo st = Some info" "params st = Some ps" "allChanges st \<noteq> []"
  shows "snd (loadNextBatch w inp st prev) = [nextCall w inp st ps info]"
    and "analyzeFunction w (nextCall w inp st ps info) = Inr b \<Longrightarrow>
         fst (loadNextBatch w inp st prev) =
           prev\<lparr>isAnalyzing := False, analysis := Some (merged (analysis prev) b),
                processedCount := processedCount prev + length (nextBatch st)\<rparr>"
  using assms
  by (auto simp: loadNextBatch_def Let_def split: sum.splits)

text \<open>
  C3, as stated, fails: the first call receives what \<open>fetchBatchContents\<close> returns for
  the first batch, and a change without a path yields no entry. For a pull request whose
  only change has no path the call carries no file, although the first batch has one
  change.
\<close>

theorem batches_sent_counterexample:
  "getPRMetadata pathlessWorld sampleParams ''token'' = Inr (None, [pathless]) \<and>
   snd (startAnalysis pathlessWorld sampleInputs initialState) =
     [firstCall pathlessWorld sampleInputs sampleParams samplePRInfo None [pathless]] \<and>
   changes (firstCall pathlessWorld sampleInputs sampleParams samplePRInfo None [pathless]) = [] \<and>
   min 10 (length [pathless]) = 1"
proof -
  have meta: "getPRMetadata pathlessWorld sampleParams ''token'' = Inr (None, [pathless])"
    by (simp add: pathlessWorld_def)
  have parsed: "parsePRUrl (newURL pathlessWorld) (url sampleInputs) = Inr (Some sampleParams)"
    by (simp add: pathlessWorld_def sampleWorld_def sampleInputs_def sampleURL_def sampleParams_def
        parsePRUrl_def parsePRUrl_try_def)
  have calls: "snd (startAnalysis pathlessWorld sampleInputs initialState) =
     [firstCall pathlessWorld sampleInputs sampleParams samplePRInfo None [pathless]]"
  proof (rule startAnalysis_reaches_call(1)[OF _ _ parsed])
    show "url sampleInputs \<noteq> []" "pat sampleInputs \<noteq> []"
      by (simp_all add: sampleInputs_def)
    show "getPRDetails pathlessWorld sampleParams (pat sampleInputs) = Inr samplePRInfo"
      by (simp add: pathlessWorld_def sampleWorld_def)
    show "toLowerCase pathlessWorld (status samplePRInfo) \<noteq> ''abandoned''"
      by (simp add: pathlessWorld_def sampleWorld_def sampleLower_def samplePRInfo_def)
    show "getPRMetadata pathlessWorld sampleParams (pat sampleInputs) = Inr (None, [pathless])"
      by (simp add: pathlessWorld_def)
    show "[pathless] \<noteq> []" by simp
  qed
  have none: "changePath pathless = None"
    by (simp add: changePath_def pathless_def orElse_def)
  have files: "changes (firstCall pathlessWorld sampleInputs sampleParams samplePRInfo None [pathless]) = []"
    by (simp add: firstCall_def slice_def fetchBatchContents_def List.map_filter_simps
        fetchChange_def none)
  from meta calls files show ?thesis by simp
qed

text \<open>
  C3, amended. When \<open>startAnalysis\<close> gets as far as a non-empty change list, it makes
  one call: the files are what \<open>fetchBatchContents\<close> returns for the first
  min(10, changes.length) changes, one entry for each of these changes that has a path, in
  order; the batch index is 0 and the number of batches is ceil(changes.length / 10); when
  the call succeeds, \<open>processedCount\<close> becomes min(10, changes.length). A
  \<open>loadNextBatch\<close> that passes its guard makes one call with what \<open>fetchBatchContents\<close>
  returns for the changes from index \<open>processedCount\<close> to \<open>processedCount + 10\<close>
  (at most 10), again one entry for each change that has a path; when the call succeeds,
  \<open>processedCount\<close> grows by the length of that slice.
\<close>

theorem batches_sent:
  "(url inp \<noteq> [] \<and> pat inp \<noteq> [] \<and> parsePRUrl (newURL w) (url inp) = Inr (Some ps) \<and>
    getPRDetails w ps (pat inp) = Inr info \<and> toLowerCase w (status info) \<noteq> ''abandoned'' \<and>
    getPRMetadata w ps (pat inp) = Inr (commit, found) \<and> found \<noteq> [] \<longrightarrow>
    (\<exists>call. snd (startAnalysis w inp st) = [call] \<and>
       changes call =
         fetchBatchContents (toLowerCase w) (getItem w) ps (pat inp)
           (take (min 10 (length found)) found) commit \<and>
       map FileDiff.path (changes call) =
         List.map_filter changePath (take (min 10 (length found)) found) \<and>
       batchIndex call = 0 \<and>
       totalBatches call = nat \<lceil>real (length found) / 10\<rceil> \<and>
       (\<forall>a. analyzeFunction w call = Inr a \<longrightarrow>
          processedCount (fst (startAnalysis w inp st)) = min 10 (length found)))) \<and>
   (AppState.prInfo st' = Some info' \<and> params st' = Some ps' \<and> allChanges st' \<noteq> [] \<longrightarrow>
    (\<exists>call. snd (loadNextBatch w inp st' prev) = [call] \<and>
       changes call =
         fetchBatchContents (toLowerCase w) (getItem w) ps' (pat inp)
           (take 10 (drop (processedCount st') (allChanges st'))) (commitId st') \<and>
       map FileDiff.path (changes call) =
         List.map_filter changePath (take 10 (drop (processedCount st') (allChanges st'))) \<and>
       length (take 10 (drop (processedCount st') (allChanges st'))) \<le> 10 \<and>
       (\<forall>b. analyzeFunction w call = Inr b \<longrightarrow>
          processedCount (fst (loadNextBatch w inp st' prev)) =
            processedCount prev + length (take 10 (drop (processedCount st') (allChanges st'))))))"
proof (intro conjI impI)
  assume h: "url inp \<noteq> [] \<and> pat inp \<noteq> [] \<and> parsePRUrl (newURL w) (url inp) = Inr (Some ps) \<and>
    getPRDetails w ps (pat inp) = Inr info \<and> toLowerCase w (status info) \<noteq> ''abandoned'' \<and>
    getPRMetadata w ps (pat inp) = Inr (commit, found) \<and> found \<noteq> []"
  define call where "call = firstCall w inp ps info commit found"
  have sent: "snd (startAnalysis w inp st) = [call]"
    unfolding call_def using h by (intro startAnalysis_reaches_call(1)) simp_all
  have files: "changes call =
      fetchBatchContents (toLowerCase w) (getItem w) ps (pat inp) (take (min 10 (length found)) found) commit"
    by (simp add: call_def firstCall_def Let_def slice_first)
  have paths: "map FileDiff.path (changes call) = List.map_filter changePath (take (min 10 (length found)) found)"
    unfolding files by (rule fetched_paths)
  have nums: "batchIndex call = 0" "totalBatches call = nat \<lceil>real (length found) / 10\<rceil>"
    by (simp_all add: call_def firstCall_def Let_def)
  have count: "processedCount (fst (startAnalysis w inp st)) = min 10 (length found)"
    if "analyzeFunction w call = Inr a" for a
    using startAnalysis_reaches_call(2)[of inp w ps info commit found a st] h that
    by (simp add: call_def length_slice_first)
  from sent files paths nums count
  show "\<exists>call. snd (startAnalysis w inp st) = [call] \<and>
       changes call =
         fetchBatchContents (toLowerCase w) (getItem w) ps (pat inp)
           (take (min 10 (length found)) found) commit \<and>
       map FileDiff.path (changes call) =
         List.map_filter changePath (take (min 10 (length found)) found) \<and>
       batchIndex call = 0 \<and>
       totalBatches call = nat \<lceil>real (length found) / 10\<rceil> \<and>
       (\<forall>a. analyzeFunction w call = Inr a \<longrightarrow>
          processedCount (fst (startAnalysis w inp st)) = min 10 (length found))"
    by blast
next
  assume h: "AppState.prInfo st' = Some info' \<and> params st' = Some ps' \<and> allChanges st' \<noteq> []"
  define call where "call = nextCall w inp st' ps' info'"
  let ?batch = "take 10 (drop (processedCount st') (allChanges st'))"
  have sent: "snd (loadNextBatch w inp st' prev) = [call]"
    unfolding call_def using h by (intro loadNextBatch_reaches_call(1)) simp_all
  have files: "changes call =
      fetchBatchContents (toLowerCase w) (getItem w) ps' (pat inp) ?batch (commitId st')"
    by (simp add: call_def nextCall_def Let_def nextBatch_take_drop)
  have paths: "map FileDiff.path (changes call) = List.map_filter changePath ?batch"
    unfolding files by (rule fetched_paths)
  have count: "processedCount (fst (loadNextBatch w inp st' prev)) = processedCount prev + length ?batch"
    if "analyzeFunction w call = Inr b" for b
    using loadNextBatch_reaches_call(2)[of st' info' ps' w inp b prev] h that
    by (simp add: call_def nextBatch_take_drop)
  have short: "length ?batch \<le> 10" by simp
  from sent files paths short count
  show "\<exists>call. snd (loadNextBatch w inp st' prev) = [call] \<and>
       changes call =
         fetchBatchContents (toLowerCase w) (getItem w) ps' (pat inp) ?batch (commitId st') \<and>
       map FileDiff.path (changes call) = List.map_filter changePath ?batch \<and>
       length ?batch \<le> 10 \<and>
       (\<forall>b. analyzeFunction w call = Inr b \<longrightarrow>
          processedCount (fst (loadNextBatch w inp st' prev)) = processedCount prev + length ?batch)"
    by blast
qed

theorem batches_sent_witness:
  "(url sampleInputs \<noteq> [] \<and> pat sampleInputs \<noteq> [] \<and>
    parsePRUrl (newURL sampleWorld) (url sampleInputs) = Inr (Some sampleParams) \<and>
    getPRDetails sampleWorld sampleParams (pat sampleInputs) = Inr samplePRInfo \<and>
    toLowerCase sampleWorld (status samplePRInfo) \<noteq> ''abandoned'' \<and>
    getPRMetadata sampleWorld sampleParams (pat sampleInputs) = Inr (Some ''c0ffee'', twelveChanges) \<and>
    twelveChanges \<noteq> []) \<and>
   analyzeFunction sampleWorld
     (firstCall sampleWorld sampleInputs sampleParams samplePRInfo (Some ''c0ffee'') twelveChanges) =
     Inr (sampleAnalysis ''first'') \<and>
   map batchIndex (snd (startAnalysis sampleWorld sampleInputs initialState)) = [0] \<and>
   map totalBatches (snd (startAnalysis sampleWorld sampleInputs initialState)) = [2] \<and>
   processedCount (fst (startAnalysis sampleWorld sampleInputs initialState)) = 10 \<and>
   (AppState.prInfo tenDone = Some samplePRInfo \<and> params tenDone = Some sampleParams \<and>
    allChanges tenDone \<noteq> []) \<and>
   analyzeFunction sampleWorld
     (nextCall sampleWorld sampleInputs tenDone sampleParams samplePRInfo) =
     Inr (sampleAnalysis ''next'') \<and>
   processedCount (fst (loadNextBatch sampleWorld sampleInputs tenDone tenDone)) = 12"
proof -
  have len: "length twelveChanges = 12"
    by (simp add: twelveChanges_def)
  have h1: "url sampleInputs \<noteq> [] \<and> pat sampleInputs \<noteq> [] \<and>
    parsePRUrl (newURL sampleWorld) (url sampleInputs) = Inr (Some sampleParams) \<and>
    getPRDetails sampleWorld sampleParams (pat sampleInputs) = Inr samplePRInfo \<and>
    toLowerCase sampleWorld (status samplePRInfo) \<noteq> ''abandoned'' \<and>
    getPRMetadata sampleWorld sampleParams (pat sampleInputs) = Inr (Some ''c0ffee'', twelveChanges) \<and>
    twelveChanges \<noteq> []"
    using len
    by (auto simp add: sampleWorld_def sampleInputs_def sampleURL_def sampleParams_def
        sampleLower_def samplePRInfo_def parsePRUrl_def parsePRUrl_try_def)
  have h2: "AppState.prInfo tenDone = Some samplePRInfo \<and> params tenDone = Some sampleParams \<and>
    allChanges tenDone \<noteq> []"
    using len by (auto simp add: tenDone_def)
  have first: "analyzeFunction sampleWorld
     (firstCall sampleWorld sampleInputs sampleParams samplePRInfo (Some ''c0ffee'') twelveChanges) =
     Inr (sampleAnalysis ''first'')"
    by (simp add: analyzeFunction_def firstCall_def Let_def sampleWorld_def sampleInputs_def)
  have "next": "analyzeFunction sampleWorld
     (nextCall sampleWorld sampleInputs tenDone sampleParams samplePRInfo) =
     Inr (sampleAnalysis ''next'')"
    by (simp add: analyzeFunction_def nextCall_def Let_def sampleWorld_def sampleInputs_def tenDone_def)
  have sent1: "snd (startAnalysis sampleWorld sampleInputs initialState) =
      [firstCall sampleWorld sampleInputs sampleParams samplePRInfo (Some ''c0ffee'') twelveChanges]"
    using h1 by (intro startAnalysis_reaches_call(1)) simp_all
  have sent2: "snd (loadNextBatch sampleWorld sampleInputs tenDone tenDone) =
      [nextCall sampleWorld sampleInputs tenDone sampleParams samplePRInfo]"
    using h2 by (intro loadNextBatch_reaches_call(1)) simp_all
  have n1: "min 10 (length twelveChanges) = 10" "nat \<lceil>real (length twelveChanges) / 10\<rceil> = 2"
    by (simp_all add: len)
  have n2: "processedCount tenDone +
      length (take 10 (drop (processedCount tenDone) (allChanges tenDone))) = 12"
    by (simp add: tenDone_def len)
  note T = batches_sent[where inp = sampleInputs and w = sampleWorld and ps = sampleParams
      and info = samplePRInfo and commit = "Some ''c0ffee''" and found = twelveChanges
      and st = initialState and st' = tenDone and info' = samplePRInfo and ps' = sampleParams
      and prev = tenDone]
  from T h1 obtain call where
    a: "snd (startAnalysis sampleWorld sampleInputs initialState) = [call]"
      "batchIndex call = 0" "totalBatches call = 2"
      "\<And>a. analyzeFunction sampleWorld call = Inr a \<Longrightarrow>
         processedCount (fst (startAnalysis sampleWorld sampleInputs initialState)) = 10"
    unfolding n1 by blast
  from a(1) sent1 have call: "call =
      firstCall sampleWorld sampleInputs sampleParams samplePRInfo (Some ''c0ffee'') twelveChanges"
    by simp
  have r1: "map batchIndex (snd (startAnalysis sampleWorld sampleInputs initialState)) = [0]"
    "map totalBatches (snd (startAnalysis sampleWorld sampleInputs initialState)) = [2]"
    using a(1,2,3) by simp_all
  have r2: "processedCount (fst (startAnalysis sampleWorld sampleInputs initialState)) = 10"
    using a(4)[of "sampleAnalysis ''first''"] first call by simp
  from T h2 obtain call' where
    b: "snd (loadNextBatch sampleWorld sampleInputs tenDone tenDone) = [call']"
      "\<And>b. analyzeFunction sampleWorld call' = Inr b \<Longrightarrow>
         processedCount (fst (loadNextBatch sampleWorld sampleInputs tenDone tenDone)) = 12"
    unfolding n2 by blast
  from b(1) sent2 have call': "call' = nextCall sampleWorld sampleInputs tenDone sampleParams samplePRInfo"
    by simp
  have r3: "processedCount (fst (loadNextBatch sampleWorld sampleInputs tenDone tenDone)) = 12"
    using b(2)[of "sampleAnalysis ''next''"] "next" call' by simp
  from h1 first r1 r2 h2 "next" r3 show ?thesis by blast
qed

text \<open>
  C4. When \<open>loadNextBatch\<close> passes its guard and the call returns a batch analysis, the
  new state holds a merged analysis whose key points, security concerns, performance tips
  and review comments are those of the previous analysis followed by those of the batch
  (the previous ones count as empty when there was no previous analysis), and whose
  summary, overall health, architectural impact, context alignment and stats are those of
  the batch.
\<close>

theorem merged_analysis:
  assumes "AppState.prInfo st = Some info" and "params st = Some ps" and "allChanges st \<noteq> []"
    and "analyzeFunction w (nextCall w inp st ps info) = Inr b"
  shows "\<exists>m. analysis (fst (loadNextBatch w inp st prev)) = Some m \<and>
     (\<forall>a. analysis prev = Some a \<longrightarrow>
        keyPoints m = keyPoints a @ keyPoints b \<and>
        securityConcerns m = securityConcerns a @ securityConcerns b \<and>
        performanceTips m = performanceTips a @ performanceTips b \<and>
        codeReviewComments m = codeReviewComments a @ codeReviewComments b) \<and>
     (analysis prev = None \<longrightarrow>
        keyPoints m = keyPoints b \<and> securityConcerns m = securityConcerns b \<and>
        performanceTips m = performanceTips b \<and> codeReviewComments m = codeReviewComments b) \<and>
     summary m = summary b \<and> overallHealth m = overallHealth b \<and>
     architecturalImpact m = architecturalImpact b \<and>
     contextAlignment m = contextAlignment b \<and> stats m = stats b"
proof -
  have "analysis (fst (loadNextBatch w inp st prev)) = Some (merged (analysis prev) b)"
    using loadNextBatch_reaches_call(2)[OF assms] by simp
  then show ?thesis
    by (simp add: merged_def Let_def)
qed

theorem merged_analysis_witness:
  "AppState.prInfo tenDone = Some samplePRInfo \<and> params tenDone = Some sampleParams \<and>
   allChanges tenDone \<noteq> [] \<and>
   analyzeFunction sampleWorld (nextCall sampleWorld sampleInputs tenDone sampleParams samplePRInfo) =
     Inr (sampleAnalysis ''next'') \<and>
   (\<exists>m. analysis (fst (loadNextBatch sampleWorld sampleInputs tenDone tenDone)) = Some m \<and>
      keyPoints m = [''first'', ''next''] \<and> securityConcerns m = [] \<and>
      performanceTips m = [''first'', ''next''] \<and>
      map comment (codeReviewComments m) = [''first'', ''next''] \<and>
      summary m = ''next'')"
proof -
  have h: "AppState.prInfo tenDone = Some samplePRInfo" "params tenDone = Some sampleParams"
    "allChanges tenDone \<noteq> []"
    by (auto simp add: tenDone_def twelveChanges_def)
  have call: "analyzeFunction sampleWorld
      (nextCall sampleWorld sampleInputs tenDone sampleParams samplePRInfo) =
     Inr (sampleAnalysis ''next'')"
    by (simp add: analyzeFunction_def nextCall_def Let_def sampleWorld_def sampleInputs_def tenDone_def)
  have prev: "analysis tenDone = Some (sampleAnalysis ''first'')"
    by (simp add: tenDone_def)
  from merged_analysis[OF h call, of tenDone] prev
  have "\<exists>m. analysis (fst (loadNextBatch sampleWorld sampleInputs tenDone tenDone)) = Some m \<and>
      keyPoints m = keyPoints (sampleAnalysis ''first'') @ keyPoints (sampleAnalysis ''next'') \<and>
      securityConcerns m = securityConcerns (sampleAnalysis ''first'') @ securityConcerns (sampleAnalysis ''next'') \<and>
      performanceTips m = performanceTips (sampleAnalysis ''first'') @ performanceTips (sampleAnalysis ''next'') \<and>
      codeReviewComments m = codeReviewComments (sampleAnalysis ''first'') @ codeReviewComments (sampleAnalysis ''next'') \<and>
      summary m = summary (sampleAnalysis ''next'')"
    by blast
  then have "\<exists>m. analysis (fst (loadNextBatch sampleWorld sampleInputs tenDone tenDone)) = Some m \<and>
      keyPoints m = [''first'', ''next''] \<and> securityConcerns m = [] \<and>
      performanceTips m = [''first'', ''next''] \<and>
      map comment (codeReviewComments m) = [''first'', ''next''] \<and>
      summary m = ''next''"
    by (auto simp add: sampleAnalysis_def)
  with h call show ?thesis by blast
qed


section \<open>Properties of the side-by-side diff\<close>

declare steps.simps [simp del]
declare backtrack.simps [simp del]

lemma lcsLength_Nil2 [simp]: "lcsLength xs [] = 0"
  by (cases xs) auto

lemma lcsLength_upper:
  "subseq ws xs \<Longrightarrow> subseq ws ys \<Longrightarrow> length ws \<le> lcsLength xs ys"
proof (induction xs ys arbitrary: ws rule: lcsLength.induct)
  case (1 ys)
  then show ?case by simp
next
  case (2 x xs)
  then show ?case by simp
next
  case (3 x xs y ys)
  note sx = \<open>subseq ws (x # xs)\<close> and sy = \<open>subseq ws (y # ys)\<close>
  show ?case
  proof (cases ws)
    case Nil
    then show ?thesis by simp
  next
    case (Cons w ws')
    show ?thesis
    proof (cases "x = y")
      case True
      have "subseq ws' xs" "subseq ws' ys"
        using sx sy Cons True by (auto split: if_splits dest: subseq_Cons')
      from "3.IH"(1)[OF True this] Cons True show ?thesis by simp
    next
      case False
      show ?thesis
      proof (cases "w = x")
        case True
        with False Cons sy have "subseq ws ys" by simp
        from "3.IH"(3)[OF False sx this] False show ?thesis by simp
      next
        case False
        with Cons sx have "subseq ws xs" by simp
        from "3.IH"(2)[OF \<open>x \<noteq> y\<close> this sy] \<open>x \<noteq> y\<close> show ?thesis by simp
      qed
    qed
  qed
qed

lemma subseq_rev: "subseq xs ys \<Longrightarrow> subseq (rev xs) (rev ys)"
proof (induction rule: list_emb.induct)
  case (list_emb_Nil ys)
  then show ?case by simp
next
  case (list_emb_Cons xs ys y)
  then show ?case by (simp add: subseq_rev_drop_many)
next
  case (list_emb_Cons2 x y xs ys)
  then show ?case by (simp add: list_emb_append_mono)
qed

lemma prefixLcs_0 [simp]: "prefixLcs xs ys 0 j = 0" "prefixLcs xs ys i 0 = 0"
  by (simp_all add: prefixLcs_def)

lemma prefixLcs_Suc:
  "i < length xs \<Longrightarrow> j < length ys \<Longrightarrow>
   prefixLcs xs ys (Suc i) (Suc j) =
     (if xs ! i = ys ! j then Suc (prefixLcs xs ys i j)
      else max (prefixLcs xs ys i (Suc j)) (prefixLcs xs ys (Suc i) j))"
  by (simp add: prefixLcs_def take_Suc_conv_app_nth)

lemma prefixLcs_upper:
  assumes "subseq ws (take i xs)" "subseq ws (take j ys)"
  shows "length ws \<le> prefixLcs xs ys i j"
  using lcsLength_upper[OF subseq_rev[OF assms(1)] subseq_rev[OF assms(2)]]
  by (simp add: prefixLcs_def)

lemma fold_upt_invariant:
  assumes "P a s" and "a \<le> b"
    and "\<And>k s. a \<le> k \<Longrightarrow> k < b \<Longrightarrow> P k s \<Longrightarrow> P (Suc k) (f k s)"
  shows "P b (fold f [a..<b] s)"
  using assms(2,3)
proof (induction b)
  case 0
  with assms(1) show ?case by simp
next
  case (Suc b)
  show ?case
  proof (cases "a = Suc b")
    case True
    with assms(1) show ?thesis by simp
  next
    case False
    with Suc.prems have le: "a \<le> b" by simp
    have "P b (fold f [a..<b] s)"
      using Suc.IH[OF le] Suc.prems(2) by simp
    with le Suc.prems(2)[of b] show ?thesis by simp
  qed
qed

lemma initTable_upTo: "tableUpTo xs ys 1 (initTable (length xs) (length ys))"
  by (auto simp: tableUpTo_def tableShape_def initTable_def nth_Cons')

lemma fillCell_value:
  assumes "rowUpTo xs ys i j t" "1 \<le> i" "i \<le> length xs" "1 \<le> j" "j \<le> length ys"
  shows "(if xs ! (i - 1) = ys ! (j - 1) then t ! (i - 1) ! (j - 1) + 1
          else max (t ! (i - 1) ! j) (t ! i ! (j - 1))) = prefixLcs xs ys i j"
proof -
  obtain i' j' where ij: "i = Suc i'" "j = Suc j'"
    using assms(2,4) by (cases i; cases j) auto
  have a: "t ! i' ! j' = prefixLcs xs ys i' j'" "t ! i' ! j = prefixLcs xs ys i' j"
    using assms(1,5) ij by (auto simp: rowUpTo_def tableUpTo_def)
  have b: "t ! i ! j' = prefixLcs xs ys i j'"
    using assms(1) ij by (auto simp: rowUpTo_def)
  show ?thesis
    using a b assms(3,5) ij by (simp add: prefixLcs_Suc)
qed

lemma fillCell_step:
  assumes "rowUpTo xs ys i j t" "1 \<le> i" "i \<le> length xs" "1 \<le> j" "j \<le> length ys"
  shows "rowUpTo xs ys i (Suc j) (fillCell xs ys i j t)"
proof -
  define v where "v = (if xs ! (i - 1) = ys ! (j - 1) then t ! (i - 1) ! (j - 1) + 1
          else max (t ! (i - 1) ! j) (t ! i ! (j - 1)))"
  have v: "v = prefixLcs xs ys i j"
    unfolding v_def by (rule fillCell_value[OF assms])
  have fc: "fillCell xs ys i j t = t[i := (t ! i)[j := v]]"
    by (simp add: fillCell_def v_def)
  have sh: "length t = length xs + 1" "\<And>r. r \<le> length xs \<Longrightarrow> length (t ! r) = length ys + 1"
    "\<And>r. r \<le> length xs \<Longrightarrow> t ! r ! 0 = 0"
    using assms(1) by (auto simp: rowUpTo_def tableUpTo_def tableShape_def)
  have old: "\<And>r c. r < i \<Longrightarrow> c \<le> length ys \<Longrightarrow> t ! r ! c = prefixLcs xs ys r c"
    "\<And>c. c < j \<Longrightarrow> t ! i ! c = prefixLcs xs ys i c"
    using assms(1) by (auto simp: rowUpTo_def tableUpTo_def)
  have shape': "tableShape (length xs) (length ys) (t[i := (t ! i)[j := v]])"
    using sh assms(3,4) by (auto simp: tableShape_def nth_list_update)
  have rows': "\<forall>r<i. \<forall>c\<le>length ys. t[i := (t ! i)[j := v]] ! r ! c = prefixLcs xs ys r c"
    using old(1) by (auto simp: nth_list_update)
  have il: "i < length t" and jl: "j < length (t ! i)"
    using sh(1) sh(2)[of i] assms(3,5) by auto
  have row': "\<forall>c<Suc j. t[i := (t ! i)[j := v]] ! i ! c = prefixLcs xs ys i c"
    using old(2) il jl v by (auto simp: nth_list_update less_Suc_eq)
  show ?thesis
    unfolding fc rowUpTo_def tableUpTo_def using shape' rows' row' by blast
qed

lemma fillRow_step:
  assumes "tableUpTo xs ys i t" "1 \<le> i" "i \<le> length xs"
  shows "tableUpTo xs ys (Suc i) (fillRow xs ys i t)"
proof -
  have start: "rowUpTo xs ys i 1 t"
    using assms by (auto simp: rowUpTo_def tableUpTo_def tableShape_def)
  have "rowUpTo xs ys i (length ys + 1) (fold (fillCell xs ys i) [1..<length ys + 1] t)"
    by (rule fold_upt_invariant[where P = "rowUpTo xs ys i", OF start])
       (use assms in \<open>auto intro: fillCell_step\<close>)
  then have fin: "rowUpTo xs ys i (length ys + 1) (fillRow xs ys i t)"
    by (simp add: fillRow_def)
  show ?thesis
    unfolding tableUpTo_def
  proof (intro conjI allI impI)
    show "tableShape (length xs) (length ys) (fillRow xs ys i t)"
      using fin by (simp add: rowUpTo_def tableUpTo_def)
  next
    fix r c assume "r < Suc i" "c \<le> length ys"
    then show "fillRow xs ys i t ! r ! c = prefixLcs xs ys r c"
      using fin by (cases "r = i") (auto simp: rowUpTo_def tableUpTo_def)
  qed
qed

lemma fillTable_upTo: "tableUpTo xs ys (length xs + 1) (fillTable xs ys)"
  unfolding fillTable_def
  by (rule fold_upt_invariant[where P = "tableUpTo xs ys", OF initTable_upTo])
     (auto intro: fillRow_step)

lemma fillTable_correct:
  "i \<le> length xs \<Longrightarrow> j \<le> length ys \<Longrightarrow> fillTable xs ys ! i ! j = prefixLcs xs ys i j"
  using fillTable_upTo[of xs ys] by (auto simp: tableUpTo_def)

lemma backtrack_steps:
  "backtrack t xs ys i j l r =
     (l @ map fst (steps t xs ys i j), r @ map snd (steps t xs ys i j))"
proof (induction t xs ys i j l r rule: backtrack.induct)
  case (1 t xs ys i j l r)
  let ?same = "i > 0 \<and> j > 0 \<and> xs ! (i - 1) = ys ! (j - 1)"
  let ?added = "j > 0 \<and> (i = 0 \<or> t ! i ! (j - 1) \<ge> t ! (i - 1) ! j)"
  show ?case
  proof (cases "i > 0 \<or> j > 0")
    case False
    then show ?thesis
      by (subst backtrack.simps, subst (1 2) steps.simps) auto
  next
    case go: True
    show ?thesis
    proof (cases ?same)
      case True
      from "1.IH"(1)[OF go True] go True show ?thesis
        by (subst backtrack.simps, subst (1 2) steps.simps) auto
    next
      case ns: False
      show ?thesis
      proof (cases ?added)
        case True
        from "1.IH"(2)[OF go ns True] go ns True show ?thesis
          by (subst backtrack.simps, subst (1 2) steps.simps) auto
      next
        case False
        from "1.IH"(3)[OF go ns False] go ns False show ?thesis
          by (subst backtrack.simps, subst (1 2) steps.simps) auto
      qed
    qed
  qed
qed

lemma buildSideBySideDiff_steps:
  "buildSideBySideDiff source target =
     \<lparr>left = map fst (rev (steps (fillTable (splitLines source) (splitLines target))
                (splitLines source) (splitLines target)
                (length (splitLines source)) (length (splitLines target)))),
      right = map snd (rev (steps (fillTable (splitLines source) (splitLines target))
                (splitLines source) (splitLines target)
                (length (splitLines source)) (length (splitLines target))))\<rparr>"
  by (simp add: buildSideBySideDiff_def normalizeContent_def backtrack_steps rev_map Let_def)

lemma rows_buildSideBySideDiff:
  "rows (buildSideBySideDiff source target) =
     rev (steps (fillTable (splitLines source) (splitLines target))
                (splitLines source) (splitLines target)
                (length (splitLines source)) (length (splitLines target)))"
  by (simp add: rows_def buildSideBySideDiff_steps zip_map_fst_snd)

lemma steps_types:
  "p \<in> set (steps t xs ys i j) \<Longrightarrow>
   (type (fst p), type (snd p)) \<in> {(Same, Same), (Empty, Added), (Removed, Empty)}"
proof (induction t xs ys i j rule: steps.induct)
  case (1 t xs ys i j)
  from "1.prems" show ?case
    by (subst (asm) steps.simps) (use "1.IH" in \<open>auto split: if_splits\<close>)
qed


lemma steps_zero: "steps t xs ys 0 0 = []"
  by (subst steps.simps) simp

lemma steps_same:
  "i > 0 \<Longrightarrow> j > 0 \<Longrightarrow> xs ! (i - 1) = ys ! (j - 1) \<Longrightarrow>
   steps t xs ys i j =
     (\<lparr>text = xs ! (i - 1), lineNumber = Some i, type = Same\<rparr>,
      \<lparr>text = ys ! (j - 1), lineNumber = Some j, type = Same\<rparr>) # steps t xs ys (i - 1) (j - 1)"
  by (subst steps.simps) simp

lemma steps_added:
  "j > 0 \<Longrightarrow> i = 0 \<or> (xs ! (i - 1) \<noteq> ys ! (j - 1) \<and> t ! (i - 1) ! j \<le> t ! i ! (j - 1)) \<Longrightarrow>
   steps t xs ys i j =
     (\<lparr>text = [], lineNumber = None, type = Empty\<rparr>,
      \<lparr>text = ys ! (j - 1), lineNumber = Some j, type = Added\<rparr>) # steps t xs ys i (j - 1)"
  by (subst steps.simps) auto

lemma steps_removed:
  "i > 0 \<Longrightarrow> j = 0 \<or> (xs ! (i - 1) \<noteq> ys ! (j - 1) \<and> t ! i ! (j - 1) < t ! (i - 1) ! j) \<Longrightarrow>
   steps t xs ys i j =
     (\<lparr>text = xs ! (i - 1), lineNumber = Some i, type = Removed\<rparr>,
      \<lparr>text = [], lineNumber = None, type = Empty\<rparr>) # steps t xs ys (i - 1) j"
  by (subst steps.simps) auto

lemma steps_cases [case_names zero same added removed]:
  fixes t :: "nat list list"
  assumes "i = 0 \<Longrightarrow> j = 0 \<Longrightarrow> R"
    and "i > 0 \<Longrightarrow> j > 0 \<Longrightarrow> xs ! (i - 1) = ys ! (j - 1) \<Longrightarrow> R"
    and "j > 0 \<Longrightarrow> i = 0 \<or> (xs ! (i - 1) \<noteq> ys ! (j - 1) \<and> t ! (i - 1) ! j \<le> t ! i ! (j - 1)) \<Longrightarrow> R"
    and "i > 0 \<Longrightarrow> j = 0 \<or> (xs ! (i - 1) \<noteq> ys ! (j - 1) \<and> t ! i ! (j - 1) < t ! (i - 1) ! j) \<Longrightarrow> R"
  shows R
proof -
  have "(i = 0 \<and> j = 0) \<or> (i > 0 \<and> j > 0 \<and> xs ! (i - 1) = ys ! (j - 1)) \<or>
        (j > 0 \<and> (i = 0 \<or> (xs ! (i - 1) \<noteq> ys ! (j - 1) \<and> t ! (i - 1) ! j \<le> t ! i ! (j - 1)))) \<or>
        (i > 0 \<and> (j = 0 \<or> (xs ! (i - 1) \<noteq> ys ! (j - 1) \<and> t ! i ! (j - 1) < t ! (i - 1) ! j)))"
    by (cases "t ! (i - 1) ! j \<le> t ! i ! (j - 1)") auto
  then show R using assms by blast
qed

lemma steps_walk [case_names zero same added removed]:
  fixes t :: "nat list list" and xs ys :: "string list"
  assumes zero: "P 0 0"
    and same: "\<And>i j. i > 0 \<Longrightarrow> j > 0 \<Longrightarrow> xs ! (i - 1) = ys ! (j - 1) \<Longrightarrow> P (i - 1) (j - 1) \<Longrightarrow> P i j"
    and added: "\<And>i j. j > 0 \<Longrightarrow> i = 0 \<or> (xs ! (i - 1) \<noteq> ys ! (j - 1) \<and> t ! (i - 1) ! j \<le> t ! i ! (j - 1)) \<Longrightarrow>
            P i (j - 1) \<Longrightarrow> P i j"
    and removed: "\<And>i j. i > 0 \<Longrightarrow> j = 0 \<or> (xs ! (i - 1) \<noteq> ys ! (j - 1) \<and> t ! i ! (j - 1) < t ! (i - 1) ! j) \<Longrightarrow>
            P (i - 1) j \<Longrightarrow> P i j"
  shows "P i j"
proof (induction "i + j" arbitrary: i j rule: less_induct)
  case less
  show ?case
  proof (cases rule: steps_cases[of i j _ xs ys t])
    case zero
    with assms(1) show ?thesis by simp
  next
    case same
    with less[of "i - 1" "j - 1"] assms(2)[of i j] show ?thesis by simp
  next
    case added
    with less[of i "j - 1"] assms(3)[of j i] show ?thesis by simp
  next
    case removed
    with less[of "i - 1" j] assms(4)[of i j] show ?thesis by simp
  qed
qed

lemma withoutEmpty_append [simp]: "withoutEmpty (as @ bs) = withoutEmpty as @ withoutEmpty bs"
  by (simp add: withoutEmpty_def)

lemma withoutEmpty_simps [simp]:
  "withoutEmpty [] = []"
  "withoutEmpty [l] = (if type l = Empty then [] else [l])"
  by (simp_all add: withoutEmpty_def)

lemma take_last_line: "0 < i \<Longrightarrow> i \<le> length xs \<Longrightarrow> take i xs = take (i - 1) xs @ [xs ! (i - 1)]"
  by (cases i) (auto simp: take_Suc_conv_app_nth)

lemma steps_left_lines:
  "i \<le> length xs \<Longrightarrow>
   map text (withoutEmpty (map fst (rev (steps t xs ys i j)))) = take i xs \<and>
   map lineNumber (withoutEmpty (map fst (rev (steps t xs ys i j)))) = map Some [1..<Suc i]"
proof (induction i j rule: steps_walk[where t = t and xs = xs and ys = ys])
  case zero
  show ?case by (simp add: steps_zero)
next
  case (same i j)
  then show ?case
    by (simp add: steps_same[where i = i and j = j] take_last_line[of i xs])
next
  case (added i j)
  then show ?case
    by (simp add: steps_added[where i = i and j = j])
next
  case (removed i j)
  then show ?case
    by (simp add: steps_removed[where i = i and j = j] take_last_line[of i xs])
qed

lemma steps_right_lines:
  "j \<le> length ys \<Longrightarrow>
   map text (withoutEmpty (map snd (rev (steps t xs ys i j)))) = take j ys \<and>
   map lineNumber (withoutEmpty (map snd (rev (steps t xs ys i j)))) = map Some [1..<Suc j]"
proof (induction i j rule: steps_walk[where t = t and xs = xs and ys = ys])
  case zero
  show ?case by (simp add: steps_zero)
next
  case (same i j)
  then show ?case
    by (simp add: steps_same[where i = i and j = j] take_last_line[of j ys])
next
  case (added i j)
  then show ?case
    by (simp add: steps_added[where i = i and j = j] take_last_line[of j ys])
next
  case (removed i j)
  then show ?case
    by (simp add: steps_removed[where i = i and j = j])
qed

lemma subseq_take_pred: "subseq zs (take (j - 1) ys) \<Longrightarrow> subseq zs (take j ys)"
proof -
  assume a: "subseq zs (take (j - 1) ys)"
  have "take (j - 1) ys = take (j - 1) (take j ys)"
    by (simp add: min_def)
  then have "prefix (take (j - 1) ys) (take j ys)"
    using take_is_prefix[of "j - 1" "take j ys"] by simp
  then have "subseq (take (j - 1) ys) (take j ys)"
    by (rule prefix_imp_subseq)
  with a show ?thesis by (rule subseq_order.trans)
qed

lemma prefixLcs_step:
  "0 < i \<Longrightarrow> 0 < j \<Longrightarrow> i \<le> length xs \<Longrightarrow> j \<le> length ys \<Longrightarrow>
   prefixLcs xs ys i j =
     (if xs ! (i - 1) = ys ! (j - 1) then Suc (prefixLcs xs ys (i - 1) (j - 1))
      else max (prefixLcs xs ys (i - 1) j) (prefixLcs xs ys i (j - 1)))"
  using prefixLcs_Suc[of "i - 1" xs "j - 1" ys] by simp

lemma steps_common:
  assumes T: "\<And>r c. r \<le> length xs \<Longrightarrow> c \<le> length ys \<Longrightarrow> t ! r ! c = prefixLcs xs ys r c"
  shows "i \<le> length xs \<Longrightarrow> j \<le> length ys \<Longrightarrow>
    subseq (map (text \<circ> fst) (filter bothSame (rev (steps t xs ys i j)))) (take i xs) \<and>
    subseq (map (text \<circ> fst) (filter bothSame (rev (steps t xs ys i j)))) (take j ys) \<and>
    map (text \<circ> snd) (filter bothSame (rev (steps t xs ys i j))) =
      map (text \<circ> fst) (filter bothSame (rev (steps t xs ys i j))) \<and>
    length (filter bothSame (rev (steps t xs ys i j))) = prefixLcs xs ys i j"
proof (induction i j rule: steps_walk[where t = t and xs = xs and ys = ys])
  case zero
  show ?case by (simp add: steps_zero)
next
  case (same i j)
  have len: "prefixLcs xs ys i j = Suc (prefixLcs xs ys (i - 1) (j - 1))"
    using same.hyps same.prems prefixLcs_step[of i j xs ys] by simp
  have tk: "take i xs = take (i - 1) xs @ [xs ! (i - 1)]" "take j ys = take (j - 1) ys @ [xs ! (i - 1)]"
    using same take_last_line[of i xs] take_last_line[of j ys] by simp_all
  from same.prems have ih: "i - 1 \<le> length xs" "j - 1 \<le> length ys" by simp_all
  note IH = same.IH[OF ih]
  show ?case
    unfolding steps_same[where t = t, OF same.hyps] len tk
    using IH same.hyps(3) by (simp add: bothSame_def list_emb_append_mono)
next
  case (added i j)
  have len: "prefixLcs xs ys i j = prefixLcs xs ys i (j - 1)"
  proof (cases "i = 0")
    case True
    then show ?thesis by simp
  next
    case False
    with added.hyps have ne: "xs ! (i - 1) \<noteq> ys ! (j - 1)" and le: "t ! (i - 1) ! j \<le> t ! i ! (j - 1)"
      by auto
    have "prefixLcs xs ys (i - 1) j \<le> prefixLcs xs ys i (j - 1)"
      using le T[of "i - 1" j] T[of i "j - 1"] added.prems by simp
    then show ?thesis
      using prefixLcs_step[of i j xs ys] False added.hyps(1) added.prems ne by simp
  qed
  from added.prems have ih: "i \<le> length xs" "j - 1 \<le> length ys" by simp_all
  note IH = added.IH[OF ih]
  show ?case
    unfolding steps_added[where t = t, OF added.hyps] len
    using IH by (simp add: bothSame_def subseq_take_pred)
next
  case (removed i j)
  have len: "prefixLcs xs ys i j = prefixLcs xs ys (i - 1) j"
  proof (cases "j = 0")
    case True
    then show ?thesis by simp
  next
    case False
    with removed.hyps have ne: "xs ! (i - 1) \<noteq> ys ! (j - 1)" and lt: "t ! i ! (j - 1) < t ! (i - 1) ! j"
      by auto
    have "prefixLcs xs ys i (j - 1) < prefixLcs xs ys (i - 1) j"
      using lt T[of "i - 1" j] T[of i "j - 1"] removed.prems by simp
    then show ?thesis
      using prefixLcs_step[of i j xs ys] False removed.hyps(1) removed.prems ne by simp
  qed
  from removed.prems have ih: "i - 1 \<le> length xs" "j \<le> length ys" by simp_all
  note IH = removed.IH[OF ih]
  show ?case
    unfolding steps_removed[where t = t, OF removed.hyps] len
    using IH by (simp add: bothSame_def subseq_take_pred)
qed

lemma zip_as_map_nth:
  "length l = length r \<Longrightarrow> zip l r = map (\<lambda>k. (l ! k, r ! k)) [0..<length l]"
  by (rule nth_equalityI) auto

lemma positions_as_rows:
  assumes "length (left d) = length (right d)"
  shows "map (\<lambda>k. f (left d ! k, right d ! k)) (samePositions d) = map f (filter bothSame (rows d))"
  by (simp add: rows_def zip_as_map_nth[OF assms] filter_map samePositions_def bothSame_def comp_def)


lemma fold_push: "fold (\<lambda>k acc. acc @ [f k]) ks init = init @ map f ks"
  by (induction ks arbitrary: init) auto

lemma diff_lengths:
  "length (left (buildSideBySideDiff source target)) = length (right (buildSideBySideDiff source target))"
  by (simp add: buildSideBySideDiff_steps)

lemma diff_rows_types:
  "p \<in> set (rows (buildSideBySideDiff source target)) \<Longrightarrow>
   (type (fst p), type (snd p)) \<in> {(Same, Same), (Empty, Added), (Removed, Empty)}"
  unfolding rows_buildSideBySideDiff using steps_types[of p] by simp

lemma diff_same_rows:
  fixes source target :: string
  defines "xs \<equiv> splitLines source" and "ys \<equiv> splitLines target"
  defines "ss \<equiv> filter bothSame (rows (buildSideBySideDiff source target))"
  shows "subseq (map (text \<circ> fst) ss) xs" "subseq (map (text \<circ> fst) ss) ys"
    "map (text \<circ> snd) ss = map (text \<circ> fst) ss" "length ss = prefixLcs xs ys (length xs) (length ys)"
  using steps_common[of xs ys "fillTable xs ys" "length xs" "length ys", OF fillTable_correct]
  unfolding ss_def rows_buildSideBySideDiff xs_def ys_def by simp_all

text \<open>
  C1. For all input strings, the positions at which both sides are marked \<open>same\<close>
  carry, on the left and on the right alike, a list of lines that is a subsequence of the
  source lines and of the target lines, and no common subsequence of the two line lists is
  longer than the number of these positions: that number is the length of a longest common
  subsequence.
\<close>

theorem diff_same_positions_lcs:
  "subseq (map (\<lambda>k. text (left (buildSideBySideDiff source target) ! k))
             (samePositions (buildSideBySideDiff source target))) (splitLines source) \<and>
   subseq (map (\<lambda>k. text (left (buildSideBySideDiff source target) ! k))
             (samePositions (buildSideBySideDiff source target))) (splitLines target) \<and>
   map (\<lambda>k. text (right (buildSideBySideDiff source target) ! k))
       (samePositions (buildSideBySideDiff source target)) =
   map (\<lambda>k. text (left (buildSideBySideDiff source target) ! k))
       (samePositions (buildSideBySideDiff source target)) \<and>
   (\<forall>ws. subseq ws (splitLines source) \<and> subseq ws (splitLines target) \<longrightarrow>
      length ws \<le> length (samePositions (buildSideBySideDiff source target)))"
proof -
  define d where "d = buildSideBySideDiff source target"
  define xs where "xs = splitLines source"
  define ys where "ys = splitLines target"
  define ss where "ss = filter bothSame (rows d)"
  have len: "length (left d) = length (right d)"
    unfolding d_def by (rule diff_lengths)
  have l: "map (\<lambda>k. text (left d ! k)) (samePositions d) = map (text \<circ> fst) ss"
    using positions_as_rows[OF len, of "text \<circ> fst"] by (simp add: ss_def)
  have r: "map (\<lambda>k. text (right d ! k)) (samePositions d) = map (text \<circ> snd) ss"
    using positions_as_rows[OF len, of "text \<circ> snd"] by (simp add: ss_def)
  have n: "length (samePositions d) = length ss"
    using arg_cong[OF l, of length] by simp
  note facts = diff_same_rows[of source target, folded d_def xs_def ys_def ss_def]
  have upper: "length ws \<le> length ss" if "subseq ws xs" "subseq ws ys" for ws
    using prefixLcs_upper[of ws "length xs" xs "length ys" ys] that facts(4) by simp
  show ?thesis
    unfolding d_def[symmetric] xs_def[symmetric] ys_def[symmetric] l r n
    using facts(1,2,3) upper by blast
qed

theorem diff_same_positions_lcs_witness:
  "subseq [''b''] (splitLines [CHR ''a'', CHR 0x0A, CHR ''b'']) \<and> subseq [''b''] (splitLines ''b'') \<and>
   length [''b''] \<le> length (samePositions (buildSideBySideDiff [CHR ''a'', CHR 0x0A, CHR ''b''] ''b''))"
proof -
  have h: "subseq [''b''] (splitLines [CHR ''a'', CHR 0x0A, CHR ''b'']) \<and> subseq [''b''] (splitLines ''b'')"
    by (simp add: LF_def CR_def)
  with diff_same_positions_lcs[of "[CHR ''a'', CHR 0x0A, CHR ''b'']" "''b''"] show ?thesis
    by blast
qed

text \<open>
  C2. For all input strings the two sides have the same length; the entries of the left
  side whose type is not \<open>empty\<close> carry the source lines in order, the k-th of them with
  line number k; and the entries of the right side whose type is not \<open>empty\<close> carry the
  target lines in order, the k-th of them with line number k.
\<close>

theorem diff_sides_recover_lines:
  "length (left (buildSideBySideDiff source target)) = length (right (buildSideBySideDiff source target)) \<and>
   map text (withoutEmpty (left (buildSideBySideDiff source target))) = splitLines source \<and>
   map lineNumber (withoutEmpty (left (buildSideBySideDiff source target))) =
     map Some [1..<Suc (length (splitLines source))] \<and>
   map text (withoutEmpty (right (buildSideBySideDiff source target))) = splitLines target \<and>
   map lineNumber (withoutEmpty (right (buildSideBySideDiff source target))) =
     map Some [1..<Suc (length (splitLines target))]"
  using steps_left_lines[of "length (splitLines source)" "splitLines source"
          "fillTable (splitLines source) (splitLines target)" "splitLines target" "length (splitLines target)"]
        steps_right_lines[of "length (splitLines target)" "splitLines target"
          "fillTable (splitLines source) (splitLines target)" "splitLines source" "length (splitLines source)"]
  by (simp add: buildSideBySideDiff_steps)

text \<open>
  C9. For all input strings and every index of the returned arrays, the types of the left
  and the right entry are (same, same), (empty, added) or (removed, empty); the line that
  \<open>buildUnifiedDiffText\<close> writes for this index (after its two header lines) is the
  blank-prefixed left text in the first case, the plus-prefixed right text in the second
  and the minus-prefixed left text in the third.
\<close>

theorem diff_row_types:
  assumes "index < length (left (buildSideBySideDiff source target))"
  shows "(type (left (buildSideBySideDiff source target) ! index),
          type (right (buildSideBySideDiff source target) ! index))
           \<in> {(Same, Same), (Empty, Added), (Removed, Empty)} \<and>
         length (unifiedDiffLines source target filePath) =
           length (left (buildSideBySideDiff source target)) + 2 \<and>
         unifiedDiffLines source target filePath ! (index + 2) =
           (if type (left (buildSideBySideDiff source target) ! index) = Same \<and>
               type (right (buildSideBySideDiff source target) ! index) = Same
            then CHR '' '' # text (left (buildSideBySideDiff source target) ! index)
            else if type (left (buildSideBySideDiff source target) ! index) = Empty \<and>
               type (right (buildSideBySideDiff source target) ! index) = Added
            then CHR ''+'' # text (right (buildSideBySideDiff source target) ! index)
            else CHR ''-'' # text (left (buildSideBySideDiff source target) ! index))"
proof -
  define d where "d = buildSideBySideDiff source target"
  have len: "length (left d) = length (right d)"
    unfolding d_def by (rule diff_lengths)
  have "(left d ! index, right d ! index) \<in> set (rows d)"
    using assms len unfolding rows_def d_def[symmetric]
    by (metis in_set_conv_nth length_zip min.idem nth_zip)
  from diff_rows_types[OF this[unfolded d_def]]
  have ty: "(type (left d ! index), type (right d ! index))
           \<in> {(Same, Same), (Empty, Added), (Removed, Empty)}"
    by (simp add: d_def)
  have lines: "unifiedDiffLines source target filePath =
      [''--- a/'' @ filePath, ''+++ b/'' @ filePath] @
      map (\<lambda>index. unifiedLine (left d ! index) (right d ! index)) [0..<length (left d)]"
    by (simp add: unifiedDiffLines_def Let_def fold_push d_def)
  have nth: "unifiedDiffLines source target filePath ! (index + 2) =
      unifiedLine (left d ! index) (right d ! index)"
    using assms unfolding lines d_def[symmetric] by (simp add: nth_append)
  show ?thesis
    unfolding d_def[symmetric] nth
    using ty by (auto simp: lines unifiedLine_def)
qed

theorem diff_row_types_witness:
  "0 < length (left (buildSideBySideDiff ''a'' ''b'')) \<and>
   (type (left (buildSideBySideDiff ''a'' ''b'') ! 0), type (right (buildSideBySideDiff ''a'' ''b'') ! 0))
     \<in> {(Same, Same), (Empty, Added), (Removed, Empty)}"
proof -
  have h: "0 < length (left (buildSideBySideDiff ''a'' ''b''))"
    by code_simp
  from diff_row_types[OF h] h show ?thesis by simp
qed


end
